theory Spec2Isabelle
  imports Main "HOL-Library.Word"
begin

unbundle bit_operations_syntax

section \<open>Python values used by the reader\<close>

text \<open>
  The image is a Python \<open>bytes\<close> object: a list of 8-bit values. Python integers are
  unbounded, so every offset and every decoded number is an \<open>int\<close>. A Python \<open>str\<close> is
  a sequence of Unicode code points; the attribute names are ASCII literals of the
  program and are kept as HOL strings.
\<close>

type_synonym byte = "8 word"
type_synonym bytes = "byte list"
type_synonym str = "nat list"

text \<open>
  The exceptions the reader can raise: three classes of its own
  (\<open>ClusterOffsetException\<close> is declared and never raised) and the built-in ones
  behind indexing, \<open>struct.unpack\<close>, \<open>bytes.decode\<close> and an unbound local.
\<close>

datatype exn =
    IndexError
  | StructError
  | UnicodeDecodeError
  | UnboundLocalError
  | ClusterOffsetException
  | NotADirectoryException
  | NotAFileException

text \<open>\<open>xs[i]\<close>: a negative index counts from the end, anything out of range raises.\<close>

definition py_index :: "'a list \<Rightarrow> int \<Rightarrow> exn + 'a" where
  "py_index xs i =
     (if 0 \<le> i \<and> i < int (length xs) then Inr (xs ! nat i)
      else if i < 0 \<and> - int (length xs) \<le> i then Inr (xs ! nat (int (length xs) + i))
      else Inl IndexError)"

text \<open>\<open>xs[a:b]\<close>: both bounds are clipped to the sequence, and nothing raises.\<close>

definition slice_bound :: "int \<Rightarrow> int \<Rightarrow> nat" where
  "slice_bound n i = nat (if i < 0 then max 0 (n + i) else min i n)"

definition py_slice :: "'a list \<Rightarrow> int \<Rightarrow> int \<Rightarrow> 'a list" where
  "py_slice xs a b =
     (let n = int (length xs); lo = slice_bound n a; hi = slice_bound n b
      in take (hi - lo) (drop lo xs))"

text \<open>
  \<open>struct.unpack("<H", s)\<close> and \<open>struct.unpack("<I", s)\<close>: the little-endian unsigned
  value of a buffer of exactly the format's width, \<open>struct.error\<close> otherwise.
\<close>

fun le_value :: "bytes \<Rightarrow> int" where
  "le_value [] = 0"
| "le_value (b # bs) = uint b + 256 * le_value bs"

definition struct_unpack :: "nat \<Rightarrow> bytes \<Rightarrow> exn + int" where
  "struct_unpack width s = (if length s = width then Inr (le_value s) else Inl StructError)"

text \<open>
  \<open>bytes.decode("utf-8")\<close> in strict mode: shortest-form UTF-8 only, no surrogates,
  nothing above U+10FFFF.
\<close>

definition is_cont :: "nat \<Rightarrow> bool" where
  "is_cont b = (0x80 \<le> b \<and> b \<le> 0xBF)"

fun utf8_decode :: "nat list \<Rightarrow> exn + str" where
  "utf8_decode [] = Inr []"
| "utf8_decode (b # bs) =
     (if b < 0x80 then
        (case utf8_decode bs of Inl e \<Rightarrow> Inl e | Inr cs \<Rightarrow> Inr (b # cs))
      else if 0xC2 \<le> b \<and> b \<le> 0xDF then
        (case bs of
           b1 # r \<Rightarrow>
             if is_cont b1 then
               (case utf8_decode r of Inl e \<Rightarrow> Inl e
                | Inr cs \<Rightarrow> Inr (((b - 0xC0) * 64 + (b1 - 0x80)) # cs))
             else Inl UnicodeDecodeError
         | _ \<Rightarrow> Inl UnicodeDecodeError)
      else if 0xE0 \<le> b \<and> b \<le> 0xEF then
        (case bs of
           b1 # b2 # r \<Rightarrow>
             if (if b = 0xE0 then 0xA0 else 0x80) \<le> b1
                \<and> b1 \<le> (if b = 0xED then 0x9F else 0xBF) \<and> is_cont b2 then
               (case utf8_decode r of Inl e \<Rightarrow> Inl e
                | Inr cs \<Rightarrow>
                    Inr (((b - 0xE0) * 4096 + (b1 - 0x80) * 64 + (b2 - 0x80)) # cs))
             else Inl UnicodeDecodeError
         | _ \<Rightarrow> Inl UnicodeDecodeError)
      else if 0xF0 \<le> b \<and> b \<le> 0xF4 then
        (case bs of
           b1 # b2 # b3 # r \<Rightarrow>
             if (if b = 0xF0 then 0x90 else 0x80) \<le> b1
                \<and> b1 \<le> (if b = 0xF4 then 0x8F else 0xBF) \<and> is_cont b2 \<and> is_cont b3 then
               (case utf8_decode r of Inl e \<Rightarrow> Inl e
                | Inr cs \<Rightarrow>
                    Inr (((b - 0xF0) * 262144 + (b1 - 0x80) * 4096
                          + (b2 - 0x80) * 64 + (b3 - 0x80)) # cs))
             else Inl UnicodeDecodeError
         | _ \<Rightarrow> Inl UnicodeDecodeError)
      else Inl UnicodeDecodeError)"

definition decode :: "bytes \<Rightarrow> exn + str" where
  "decode s = utf8_decode (map unat s)"

text \<open>\<open>str.strip()\<close> removes the characters for which \<open>str.isspace\<close> holds, at both ends.\<close>

definition isspace :: "nat \<Rightarrow> bool" where
  "isspace c =
     ((0x09 \<le> c \<and> c \<le> 0x0D) \<or> (0x1C \<le> c \<and> c \<le> 0x20) \<or> c = 0x85 \<or> c = 0xA0
      \<or> c = 0x1680 \<or> (0x2000 \<le> c \<and> c \<le> 0x200A) \<or> c = 0x2028 \<or> c = 0x2029
      \<or> c = 0x202F \<or> c = 0x205F \<or> c = 0x3000)"

definition strip :: "str \<Rightarrow> str" where
  "strip s = rev (dropWhile isspace (rev (dropWhile isspace s)))"

section \<open>The containers: \<open>FileInfo\<close> and \<open>DirectoryEntry\<close>\<close>

record file_info =
  filename :: str
  extension :: str
  filesize :: int
  bytes :: bytes

record directory_entry =
  filename :: str
  extension :: str
  attributes :: "string list"
  creation_time :: int
  creation_date :: int
  cluster_number :: int
  filesize :: int

section \<open>The reader\<close>

text \<open>The class constants of \<open>Fat16Reader\<close>; the dictionaries keep their insertion order.\<close>

definition attributes_dict :: "(byte \<times> string) list" where
  "attributes_dict =
     [(0x01, ''read_only''), (0x02, ''hidden''), (0x04, ''system''),
      (0x08, ''volume_id''), (0x10, ''directory''), (0x20, ''archive'')]"

definition fat_16_notable_values :: "(int \<times> string) list" where
  "fat_16_notable_values =
     [(0x0000, ''free cluster''), (0x0001, ''not allowed''),
      (0xFFF7, ''one or more bad sectors in cluster''),
      (0xFFF8, ''end of file''), (0xFFFF, ''end of file'')]"

definition entry_size :: int where
  "entry_size = 32"

definition fat_cluster_read_start :: int where
  "fat_cluster_read_start = 2"

text \<open>The instance: the image, the print flag, the geometry and the current listing.\<close>

record fat16_reader =
  do_print_on_commands :: bool
  image :: bytes
  volume_id :: str
  reserved_sectors :: int
  sector_size :: int
  cluster_size :: int
  fat_offset :: int
  fat_size :: int
  fat_copies :: int
  root_directory_offset :: int
  root_directory_entries :: int
  root_directory_size :: int
  clusters_offset :: int
  current_root :: int
  current_entries :: "directory_entry list"

definition read_ushort :: "bytes \<Rightarrow> int \<Rightarrow> exn + int" where
  "read_ushort img offset = struct_unpack 2 (py_slice img offset (offset + 2))"

text \<open>
  \<open>_read_entry\<close>. The loop over \<open>_attributes\<close> keeps, in dictionary order, the names
  whose mask meets the attribute byte. The constructor is called with
  \<open>creation_date\<close> before \<open>creation_time\<close> while \<open>DirectoryEntry.__init__\<close> takes
  them the other way round, so each lands in the other's field.
\<close>

definition entry_attributes :: "byte \<Rightarrow> string list" where
  "entry_attributes attributes_byte =
     map snd (filter (\<lambda>(attribute, name). attributes_byte AND attribute \<noteq> 0) attributes_dict)"

definition read_entry :: "bytes \<Rightarrow> int \<Rightarrow> exn + directory_entry" where
  "read_entry img byte_offset =
     (let name = py_slice img byte_offset (byte_offset + 8);
          ext = py_slice img (byte_offset + 8) (byte_offset + 11)
      in case decode name of Inl e \<Rightarrow> Inl e | Inr decoded_name \<Rightarrow>
         case decode ext of Inl e \<Rightarrow> Inl e | Inr decoded_ext \<Rightarrow>
         case py_index img (byte_offset + 11) of Inl e \<Rightarrow> Inl e | Inr attributes_byte \<Rightarrow>
         case read_ushort img (byte_offset + 14) of Inl e \<Rightarrow> Inl e | Inr time \<Rightarrow>
         case read_ushort img (byte_offset + 16) of Inl e \<Rightarrow> Inl e | Inr date \<Rightarrow>
         case read_ushort img (byte_offset + 26) of Inl e \<Rightarrow> Inl e | Inr cluster \<Rightarrow>
         case struct_unpack 4 (py_slice img (byte_offset + 28) (byte_offset + 32)) of
           Inl e \<Rightarrow> Inl e
         | Inr file_size \<Rightarrow>
             Inr \<lparr>directory_entry.filename = strip decoded_name,
                  extension = strip decoded_ext,
                  attributes = entry_attributes attributes_byte,
                  creation_time = date,
                  creation_date = time,
                  cluster_number = cluster,
                  filesize = file_size\<rparr>)"

text \<open>
  \<open>_read_directory\<close>: the \<open>while\<close> loop, with the list it appends to. It ends at a
  slot starting with \<open>0x00\<close>, or with the exception of the first read that fails.
\<close>

function read_directory_loop ::
  "bytes \<Rightarrow> int \<Rightarrow> directory_entry list \<Rightarrow> exn + directory_entry list" where
  "read_directory_loop img entry_offset entries =
     (case py_index img entry_offset of
        Inl e \<Rightarrow> Inl e
      | Inr first_byte \<Rightarrow>
          if first_byte \<noteq> 0x00 then
            (case read_entry img entry_offset of
               Inl e \<Rightarrow> Inl e
             | Inr entry \<Rightarrow>
                 read_directory_loop img (entry_offset + entry_size) (entries @ [entry]))
          else Inr entries)"
  by pat_completeness auto
termination
proof (relation "measure (\<lambda>(img, entry_offset, entries). nat (int (length img) - entry_offset))")
  show "wf (measure (\<lambda>(img, entry_offset, entries). nat (int (length img) - entry_offset)))"
    by simp
next
  fix img :: bytes and entry_offset :: int and entries :: "directory_entry list"
    and first_byte :: byte and entry :: directory_entry
  assume "py_index img entry_offset = Inr first_byte"
  then have "entry_offset < int (length img)"
    by (auto simp: py_index_def Let_def split: if_splits)
  then show "((img, entry_offset + entry_size, entries @ [entry]), (img, entry_offset, entries))
      \<in> measure (\<lambda>(img, entry_offset, entries). nat (int (length img) - entry_offset))"
    by (simp add: entry_size_def)
qed

declare read_directory_loop.simps [simp del]

definition read_directory :: "bytes \<Rightarrow> int \<Rightarrow> exn + directory_entry list" where
  "read_directory img offset = read_directory_loop img offset []"

text \<open>
  \<open>_check_next_in_fat\<close>: the FAT value of a cluster, and whether it is absent from
  \<open>_fat_16_notable_values\<close>.
\<close>

definition check_next_in_fat :: "fat16_reader \<Rightarrow> int \<Rightarrow> exn + bool \<times> int" where
  "check_next_in_fat r cluster =
     (case read_ushort (image r) (fat_offset r + cluster * 2) of
        Inl e \<Rightarrow> Inl e
      | Inr fat_16_value \<Rightarrow>
          Inr (map_of fat_16_notable_values fat_16_value = None, fat_16_value))"

text \<open>
  \<open>_get_clusters_list\<close>. Nothing bounds the \<open>while\<close> loop, so it is a partial
  function: \<open>None\<close> is a walk that never returns.
\<close>

partial_function (option) clusters_loop ::
  "fat16_reader \<Rightarrow> int list \<Rightarrow> bool \<times> int \<Rightarrow> (exn + int list) option" where
  "clusters_loop r clusters_list next_cluster_tuple =
     (if fst next_cluster_tuple = True then
        (case check_next_in_fat r (snd next_cluster_tuple) of
           Inl e \<Rightarrow> Some (Inl e)
         | Inr t \<Rightarrow> clusters_loop r (clusters_list @ [snd next_cluster_tuple]) t)
      else Some (Inr clusters_list))"

declare clusters_loop.simps [code]

definition get_clusters_list :: "fat16_reader \<Rightarrow> directory_entry \<Rightarrow> (exn + int list) option" where
  "get_clusters_list r entry =
     (if cluster_number entry = 0 then Some (Inr [])
      else
        (case check_next_in_fat r (cluster_number entry) of
           Inl e \<Rightarrow> Some (Inl e)
         | Inr t \<Rightarrow> clusters_loop r [cluster_number entry] t))"

text \<open>
  The methods below change the instance, and an exception leaves it as it was when
  raised: each returns its outcome together with the instance.
\<close>

definition cluster_start :: "fat16_reader \<Rightarrow> int \<Rightarrow> int" where
  "cluster_start r cluster =
     clusters_offset r + cluster_size r * sector_size r * (cluster - fat_cluster_read_start)"

fun cd_extend :: "fat16_reader \<Rightarrow> int list \<Rightarrow> (exn + unit) \<times> fat16_reader" where
  "cd_extend r [] = (Inr (), r)"
| "cd_extend r (cluster # rest) =
     (case read_directory (image r) (cluster_start r cluster) of
        Inl e \<Rightarrow> (Inl e, r)
      | Inr entries \<Rightarrow> cd_extend (r\<lparr>current_entries := current_entries r @ entries\<rparr>) rest)"

definition cd_set_current_entries ::
  "fat16_reader \<Rightarrow> int list \<Rightarrow> (exn + unit) \<times> fat16_reader" where
  "cd_set_current_entries r linked_list = cd_extend (r\<lparr>current_entries := []\<rparr>) linked_list"

text \<open>
  \<open>_compose_file\<close>: the loop collects one slice per cluster, and the file gets
  \<open>file_bytes[0]\<close>.
\<close>

fun compose_loop :: "fat16_reader \<Rightarrow> int \<Rightarrow> bytes list \<Rightarrow> int list \<Rightarrow> bytes list" where
  "compose_loop r remaining file_bytes [] = file_bytes"
| "compose_loop r remaining file_bytes (cluster # rest) =
     (let cluster_bytes = cluster_size r * sector_size r;
          start = cluster_start r cluster
      in if remaining \<ge> cluster_bytes then
           compose_loop r (remaining - cluster_bytes)
             (file_bytes @ [py_slice (image r) start (start + cluster_bytes)]) rest
         else
           compose_loop r remaining
             (file_bytes @ [py_slice (image r) start (start + remaining)]) rest)"

definition compose_file :: "fat16_reader \<Rightarrow> int list \<Rightarrow> directory_entry \<Rightarrow> exn + file_info" where
  "compose_file r clusters_list entry =
     (case py_index (compose_loop r (filesize entry) [] clusters_list) 0 of
        Inl e \<Rightarrow> Inl e
      | Inr first \<Rightarrow>
          Inr \<lparr>file_info.filename = filename entry,
               extension = extension entry,
               filesize = filesize entry,
               bytes = first\<rparr>)"

subsection \<open>The shell commands\<close>

definition ls :: "fat16_reader \<Rightarrow> directory_entry list \<times> fat16_reader" where
  "ls r = (current_entries r, r)"

text \<open>The body of the \<open>cd\<close> loop for an entry that passed the test.\<close>

definition cd_enter ::
  "fat16_reader \<Rightarrow> directory_entry \<Rightarrow> ((exn + unit) \<times> fat16_reader) option" where
  "cd_enter r entry =
     (case get_clusters_list r entry of
        None \<Rightarrow> None
      | Some (Inl e) \<Rightarrow> Some (Inl e, r)
      | Some (Inr clusters_linked_list) \<Rightarrow>
          if length clusters_linked_list > 0 then
            Some (cd_set_current_entries r clusters_linked_list)
          else
            (case read_directory (image r) (root_directory_offset r) of
               Inl e \<Rightarrow> Some (Inl e, r)
             | Inr entries \<Rightarrow> Some (Inr (), r\<lparr>current_entries := entries\<rparr>)))"

definition cd_test :: "str \<Rightarrow> directory_entry \<Rightarrow> bool" where
  "cd_test directory_name entry =
     (''directory'' \<in> set (attributes entry) \<and> filename entry = directory_name)"

text \<open>
  The \<open>for\<close> loop of \<open>cd\<close> runs over the list object that was current when the loop
  began; \<open>_cd_set_current_entries\<close> and the root reload bind a new list.
\<close>

fun cd_loop ::
  "fat16_reader \<Rightarrow> str \<Rightarrow> bool \<Rightarrow> directory_entry list \<Rightarrow> ((exn + bool) \<times> fat16_reader) option"
  where
  "cd_loop r directory_name found [] = Some (Inr found, r)"
| "cd_loop r directory_name found (entry # rest) =
     (if cd_test directory_name entry then
        (case cd_enter r entry of
           None \<Rightarrow> None
         | Some (Inl e, r') \<Rightarrow> Some (Inl e, r')
         | Some (Inr u, r') \<Rightarrow> cd_loop r' directory_name True rest)
      else cd_loop r directory_name found rest)"

definition cd ::
  "fat16_reader \<Rightarrow> str \<Rightarrow> ((exn + directory_entry list option) \<times> fat16_reader) option" where
  "cd r directory_name =
     (case cd_loop r directory_name False (current_entries r) of
        None \<Rightarrow> None
      | Some (Inl e, r') \<Rightarrow> Some (Inl e, r')
      | Some (Inr found, r') \<Rightarrow>
          if \<not> found \<and> do_print_on_commands r' then Some (Inr None, r')
          else if \<not> found \<and> \<not> do_print_on_commands r' then
            Some (Inl NotADirectoryException, r')
          else Some (Inr (Some (current_entries r')), r'))"

text \<open>
  \<open>open_file\<close>: \<open>found\<close> is set by any entry of that name; \<open>file\<close> is bound only
  by one that has \<open>archive\<close> or \<open>read_only\<close>, and \<open>return file\<close> needs it bound.
\<close>

definition open_file_test :: "directory_entry \<Rightarrow> bool" where
  "open_file_test entry =
     (''archive'' \<in> set (attributes entry) \<or> ''read_only'' \<in> set (attributes entry))"

fun open_file_loop ::
  "fat16_reader \<Rightarrow> str \<Rightarrow> bool \<Rightarrow> file_info option \<Rightarrow> directory_entry list
     \<Rightarrow> (exn + bool \<times> file_info option) option" where
  "open_file_loop r name found file [] = Some (Inr (found, file))"
| "open_file_loop r name found file (entry # rest) =
     (if filename entry = name then
        (if open_file_test entry then
           (case get_clusters_list r entry of
              None \<Rightarrow> None
            | Some (Inl e) \<Rightarrow> Some (Inl e)
            | Some (Inr clusters_list) \<Rightarrow>
                (case compose_file r clusters_list entry of
                   Inl e \<Rightarrow> Some (Inl e)
                 | Inr f \<Rightarrow> open_file_loop r name True (Some f) rest))
         else open_file_loop r name True file rest)
      else open_file_loop r name found file rest)"

definition open_file ::
  "fat16_reader \<Rightarrow> str \<Rightarrow> ((exn + file_info option) \<times> fat16_reader) option" where
  "open_file r name =
     (case open_file_loop r name False None (current_entries r) of
        None \<Rightarrow> None
      | Some (Inl e) \<Rightarrow> Some (Inl e, r)
      | Some (Inr (found, file)) \<Rightarrow>
          if \<not> found \<and> do_print_on_commands r then Some (Inr None, r)
          else if \<not> found \<and> \<not> do_print_on_commands r then Some (Inl NotAFileException, r)
          else
            (case file of
               None \<Rightarrow> Some (Inl UnboundLocalError, r)
             | Some f \<Rightarrow> Some (Inr (Some f), r)))"

subsection \<open>Construction\<close>

text \<open>
  \<open>__init__\<close> reads the whole file into \<open>image\<close>; the model starts from those bytes.
  \<open>_read_boot_sector\<close> fills the geometry in, in the order of its statements.
\<close>

definition read_boot_sector :: "fat16_reader \<Rightarrow> exn + fat16_reader" where
  "read_boot_sector r =
     (case read_ushort (image r) 14 of Inl e \<Rightarrow> Inl e | Inr reserved \<Rightarrow>
      case read_ushort (image r) 11 of Inl e \<Rightarrow> Inl e | Inr sector \<Rightarrow>
      case py_index (image r) 13 of Inl e \<Rightarrow> Inl e | Inr cluster \<Rightarrow>
      case read_ushort (image r) 22 of Inl e \<Rightarrow> Inl e | Inr fat \<Rightarrow>
      case py_index (image r) 16 of Inl e \<Rightarrow> Inl e | Inr copies \<Rightarrow>
      case read_ushort (image r) 17 of Inl e \<Rightarrow> Inl e | Inr root_entries \<Rightarrow>
        (let fat_off = reserved * sector;
             root_off = fat_off + (fat * uint copies * sector);
             root_size = root_entries * entry_size
         in Inr (r\<lparr>reserved_sectors := reserved,
                    sector_size := sector,
                    cluster_size := uint cluster,
                    fat_offset := fat_off,
                    fat_size := fat,
                    fat_copies := uint copies,
                    root_directory_offset := root_off,
                    root_directory_entries := root_entries,
                    root_directory_size := root_size,
                    clusters_offset := root_off + root_size\<rparr>)))"

definition fat16_init :: "bytes \<Rightarrow> bool \<Rightarrow> exn + fat16_reader" where
  "fat16_init file_contents do_print =
     (case read_boot_sector
             \<lparr>do_print_on_commands = do_print, image = file_contents, volume_id = [],
              reserved_sectors = 0, sector_size = 0, cluster_size = 0, fat_offset = 0,
              fat_size = 0, fat_copies = 0, root_directory_offset = 0,
              root_directory_entries = 0, root_directory_size = 0, clusters_offset = 0,
              current_root = 0, current_entries = []\<rparr> of
        Inl e \<Rightarrow> Inl e
      | Inr r \<Rightarrow>
          (case read_directory (image r) (root_directory_offset r) of
             Inl e \<Rightarrow> Inl e
           | Inr entries \<Rightarrow>
               Inr (r\<lparr>current_root := root_directory_offset r, current_entries := entries\<rparr>)))"

text \<open>
  Following the FAT from a cluster ends when it meets an entry that cannot be read or a
  notable value, after finitely many links.
\<close>

inductive chain_ends :: "fat16_reader \<Rightarrow> int \<Rightarrow> bool" for r where
  unreadable: "check_next_in_fat r c = Inl e \<Longrightarrow> chain_ends r c"
| notable: "check_next_in_fat r c = Inr (False, v) \<Longrightarrow> chain_ends r c"
| link: "check_next_in_fat r c = Inr (True, v) \<Longrightarrow> chain_ends r v \<Longrightarrow> chain_ends r c"

code_pred chain_ends .

section \<open>Test images\<close>

text \<open>Twenty-four zero bytes: the shortest image whose boot-sector fields can all be read.\<close>

definition blank_image :: bytes where
  "blank_image = [0, 0, 0, 0, 0, 0, 0, 0, 0, 0, 0, 0, 0, 0, 0, 0, 0, 0, 0, 0, 0, 0, 0, 0]"

text \<open>
  A directory area of four slots: one whose name starts with \<open>0xE5\<close> (here the first
  byte of a well-formed three-byte character), an ordinary one, an all-zero slot, and
  one more slot after it.
\<close>

definition dir_image :: bytes where
  "dir_image =
     [229, 128, 128, 65, 32, 32, 32, 32, 32, 32, 32, 33, 0, 0, 0, 0, 0, 0, 0, 0, 0, 0, 0,
      0, 0, 0, 3, 0, 5, 0, 0, 0, 66, 32, 32, 32, 32, 32, 32, 32, 32, 32, 32, 16, 0, 0, 0,
      0, 0, 0, 0, 0, 0, 0, 0, 0, 0, 0, 0, 0, 0, 0, 0, 0, 0, 0, 0, 0, 0, 0, 0, 0, 0, 0, 0,
      0, 0, 0, 0, 0, 0, 0, 0, 0, 0, 0, 0, 0, 0, 0, 0, 0, 0, 0, 0, 0, 67, 32, 32, 32, 32,
      32, 32, 32, 32, 32, 32, 16, 0, 0, 0, 0, 0, 0, 0, 0, 0, 0, 0, 0, 0, 0, 2, 0, 0, 0,
      0, 0]"

definition deleted_entry :: directory_entry where
  "deleted_entry =
     \<lparr>directory_entry.filename = [20480, 65], extension = [], attributes = [''read_only'', ''archive''],
       creation_time = 0, creation_date = 0, cluster_number = 3, filesize = 5\<rparr>"

definition plain_entry :: directory_entry where
  "plain_entry =
     \<lparr>directory_entry.filename = [66], extension = [], attributes = [''directory''],
       creation_time = 0, creation_date = 0, cluster_number = 0, filesize = 0\<rparr>"

text \<open>
  A 512-byte volume of 32-byte sectors, one sector per cluster: boot sector, one FAT of
  sixteen entries, a root directory of eight slots, and clusters 2 to 7. The FAT ends
  clusters 2 and 5 with \<open>0xFFFF\<close> and cluster 3 with \<open>0xFFF8\<close>, links cluster 6 to itself
  and holds \<open>0xFFF9\<close> for cluster 7. The root lists \<open>D\<close> (directory, cluster 2),
  \<open>G\<close> (archive, cluster 5, 40 bytes), \<open>D\<close> again (directory, cluster 3),
  \<open>H\<close> (read-only, cluster 5, 5 bytes), \<open>C\<close> (archive, cluster 6), \<open>E\<close> (archive,
  cluster 7). Cluster 2 holds the slot of an empty file \<open>Y\<close>, cluster 3 the slot of
  \<open>..\<close> (directory, cluster 0), cluster 4 is empty, cluster 5 holds file data.
\<close>

definition disk_boot :: bytes where
  "disk_boot =
     [0, 0, 0, 0, 0, 0, 0, 0, 0, 0, 0, 32, 0, 1, 1, 0, 1, 8, 0, 0, 0, 0, 1, 0, 0, 0, 0,
      0, 0, 0, 0, 0]"

definition disk_fat :: bytes where
  "disk_fat =
     [248, 255, 255, 255, 255, 255, 248, 255, 0, 0, 255, 255, 6, 0, 249, 255, 0, 0, 0, 0,
      0, 0, 0, 0, 0, 0, 0, 0, 0, 0, 0, 0]"

definition disk_root :: bytes where
  "disk_root =
     [68, 32, 32, 32, 32, 32, 32, 32, 32, 32, 32, 16, 0, 0, 0, 0, 0, 0, 0, 0, 0, 0, 0, 0,
      0, 0, 2, 0, 0, 0, 0, 0, 71, 32, 32, 32, 32, 32, 32, 32, 32, 32, 32, 32, 0, 0, 0, 0,
      0, 0, 0, 0, 0, 0, 0, 0, 0, 0, 5, 0, 40, 0, 0, 0, 68, 32, 32, 32, 32, 32, 32, 32,
      32, 32, 32, 16, 0, 0, 0, 0, 0, 0, 0, 0, 0, 0, 0, 0, 0, 0, 3, 0, 0, 0, 0, 0, 72, 32,
      32, 32, 32, 32, 32, 32, 32, 32, 32, 1, 0, 0, 0, 0, 0, 0, 0, 0, 0, 0, 0, 0, 0, 0, 5,
      0, 5, 0, 0, 0, 67, 32, 32, 32, 32, 32, 32, 32, 32, 32, 32, 32, 0, 0, 0, 0, 0, 0, 0,
      0, 0, 0, 0, 0, 0, 0, 6, 0, 1, 0, 0, 0, 69, 32, 32, 32, 32, 32, 32, 32, 32, 32, 32,
      32, 0, 0, 0, 0, 0, 0, 0, 0, 0, 0, 0, 0, 0, 0, 7, 0, 1, 0, 0, 0, 0, 0, 0, 0, 0, 0,
      0, 0, 0, 0, 0, 0, 0, 0, 0, 0, 0, 0, 0, 0, 0, 0, 0, 0, 0, 0, 0, 0, 0, 0, 0, 0, 0, 0,
      0, 0, 0, 0, 0, 0, 0, 0, 0, 0, 0, 0, 0, 0, 0, 0, 0, 0, 0, 0, 0, 0, 0, 0, 0, 0, 0, 0,
      0, 0]"

definition disk_data :: bytes where
  "disk_data =
     [89, 32, 32, 32, 32, 32, 32, 32, 32, 32, 32, 32, 0, 0, 0, 0, 0, 0, 0, 0, 0, 0, 0, 0,
      0, 0, 0, 0, 0, 0, 0, 0, 46, 46, 32, 32, 32, 32, 32, 32, 32, 32, 32, 16, 0, 0, 0, 0,
      0, 0, 0, 0, 0, 0, 0, 0, 0, 0, 0, 0, 0, 0, 0, 0, 0, 0, 0, 0, 0, 0, 0, 0, 0, 0, 0, 0,
      0, 0, 0, 0, 0, 0, 0, 0, 0, 0, 0, 0, 0, 0, 0, 0, 0, 0, 0, 0, 104, 101, 108, 108,
      111, 1, 2, 3, 4, 5, 6, 7, 8, 9, 10, 11, 12, 13, 14, 15, 16, 17, 18, 19, 20, 21, 22,
      23, 24, 25, 26, 27, 99, 99, 99, 99, 99, 99, 99, 99, 99, 99, 99, 99, 99, 99, 99, 99,
      99, 99, 99, 99, 99, 99, 99, 99, 99, 99, 99, 99, 99, 99, 99, 99, 101, 7, 7, 7, 7, 7,
      7, 7, 7, 7, 7, 7, 7, 7, 7, 7, 7, 7, 7, 7, 7, 7, 7, 7, 7, 7, 7, 7, 7, 7, 7, 7]"

definition disk :: bytes where
  "disk = disk_boot @ disk_fat @ disk_root @ disk_data"

definition entry_D2 :: directory_entry where
  "entry_D2 =
     \<lparr>directory_entry.filename = [68], extension = [], attributes = [''directory''],
       creation_time = 0, creation_date = 0, cluster_number = 2, filesize = 0\<rparr>"

definition entry_G :: directory_entry where
  "entry_G =
     \<lparr>directory_entry.filename = [71], extension = [], attributes = [''archive''],
       creation_time = 0, creation_date = 0, cluster_number = 5, filesize = 40\<rparr>"

definition entry_D3 :: directory_entry where
  "entry_D3 =
     \<lparr>directory_entry.filename = [68], extension = [], attributes = [''directory''],
       creation_time = 0, creation_date = 0, cluster_number = 3, filesize = 0\<rparr>"

definition entry_H :: directory_entry where
  "entry_H =
     \<lparr>directory_entry.filename = [72], extension = [], attributes = [''read_only''],
       creation_time = 0, creation_date = 0, cluster_number = 5, filesize = 5\<rparr>"

definition entry_C :: directory_entry where
  "entry_C =
     \<lparr>directory_entry.filename = [67], extension = [], attributes = [''archive''],
       creation_time = 0, creation_date = 0, cluster_number = 6, filesize = 1\<rparr>"

definition entry_E :: directory_entry where
  "entry_E =
     \<lparr>directory_entry.filename = [69], extension = [], attributes = [''archive''],
       creation_time = 0, creation_date = 0, cluster_number = 7, filesize = 1\<rparr>"

definition entry_Y :: directory_entry where
  "entry_Y =
     \<lparr>directory_entry.filename = [89], extension = [], attributes = [''archive''],
       creation_time = 0, creation_date = 0, cluster_number = 0, filesize = 0\<rparr>"

definition entry_up :: directory_entry where
  "entry_up =
     \<lparr>directory_entry.filename = [46, 46], extension = [], attributes = [''directory''],
       creation_time = 0, creation_date = 0, cluster_number = 0, filesize = 0\<rparr>"

definition disk_entries :: "directory_entry list" where
  "disk_entries = [entry_D2, entry_G, entry_D3, entry_H, entry_C, entry_E]"

definition disk_reader :: fat16_reader where
  "disk_reader =
     \<lparr>do_print_on_commands = False, image = disk, volume_id = [],
      reserved_sectors = 1, sector_size = 32, cluster_size = 1, fat_offset = 32,
      fat_size = 1, fat_copies = 1, root_directory_offset = 64,
      root_directory_entries = 8, root_directory_size = 256, clusters_offset = 320,
      current_root = 64, current_entries = disk_entries\<rparr>"

text \<open>
  A directory area whose first slot is a deleted entry as FAT writes it: \<open>0xE5\<close> in
  place of the first character of an ASCII name. An all-zero slot follows.
\<close>

definition deleted_image :: bytes where
  "deleted_image =
     [229, 65, 32, 32, 32, 32, 32, 32, 32, 32, 32, 32, 0, 0, 0, 0, 0, 0, 0, 0, 0, 0, 0,
      0, 0, 0, 3, 0, 5, 0, 0, 0, 0, 0, 0, 0, 0, 0, 0, 0, 0, 0, 0, 0, 0, 0, 0, 0, 0, 0, 0,
      0, 0, 0, 0, 0, 0, 0, 0, 0, 0, 0, 0, 0]"

text \<open>
  A 160-byte volume of 32-byte sectors, one sector per cluster, with one FAT and two
  root slots: the root lists \<open>D\<close>
  (directory, cluster 2), the FAT ends cluster 2 with \<open>0xFFFF\<close>, and cluster 2, the
  last 32 bytes of the image, holds the slot of \<open>Y\<close> with no all-zero slot after it.
\<close>

definition unterminated_image :: bytes where
  "unterminated_image =
     [0, 0, 0, 0, 0, 0, 0, 0, 0, 0, 0, 32, 0, 1, 1, 0, 1, 2, 0, 0, 0, 0, 1, 0, 0, 0, 0,
      0, 0, 0, 0, 0, 248, 255, 255, 255, 255, 255, 0, 0, 0, 0, 0, 0, 0, 0, 0, 0, 0, 0, 0,
      0, 0, 0, 0, 0, 0, 0, 0, 0, 0, 0, 0, 0, 68, 32, 32, 32, 32, 32, 32, 32, 32, 32, 32,
      16, 0, 0, 0, 0, 0, 0, 0, 0, 0, 0, 0, 0, 0, 0, 2, 0, 0, 0, 0, 0, 0, 0, 0, 0, 0, 0,
      0, 0, 0, 0, 0, 0, 0, 0, 0, 0, 0, 0, 0, 0, 0, 0, 0, 0, 0, 0, 0, 0, 0, 0, 0, 0, 89,
      32, 32, 32, 32, 32, 32, 32, 32, 32, 32, 32, 0, 0, 0, 0, 0, 0, 0, 0, 0, 0, 0, 0, 0,
      0, 0, 0, 0, 0, 0, 0]"

definition unterminated_entry :: directory_entry where
  "unterminated_entry =
     \<lparr>directory_entry.filename = [68], extension = [], attributes = [''directory''],
       creation_time = 0, creation_date = 0, cluster_number = 2, filesize = 0\<rparr>"

definition unterminated_reader :: fat16_reader where
  "unterminated_reader =
     \<lparr>do_print_on_commands = False, image = unterminated_image, volume_id = [],
      reserved_sectors = 1, sector_size = 32, cluster_size = 1, fat_offset = 32,
      fat_size = 1, fat_copies = 1, root_directory_offset = 64,
      root_directory_entries = 2, root_directory_size = 64, clusters_offset = 128,
      current_root = 64, current_entries = [unterminated_entry]\<rparr>"

section \<open>Properties of the methods\<close>

lemma mask_bit:
  fixes b :: byte
  shows "(b AND 0x01 \<noteq> 0) = bit b 0" "(b AND 0x02 \<noteq> 0) = bit b 1" "(b AND 0x04 \<noteq> 0) = bit b 2"
    "(b AND 0x08 \<noteq> 0) = bit b 3" "(b AND 0x10 \<noteq> 0) = bit b 4" "(b AND 0x20 \<noteq> 0) = bit b 5"
  using and_exp_eq_0_iff_not_bit [of b 0] and_exp_eq_0_iff_not_bit [of b 1]
    and_exp_eq_0_iff_not_bit [of b 2] and_exp_eq_0_iff_not_bit [of b 3]
    and_exp_eq_0_iff_not_bit [of b 4] and_exp_eq_0_iff_not_bit [of b 5]
  by simp_all

lemma entry_attributes_set:
  "set (entry_attributes b) =
     (if bit b 0 then {''read_only''} else {}) \<union> (if bit b 1 then {''hidden''} else {})
     \<union> (if bit b 2 then {''system''} else {}) \<union> (if bit b 3 then {''volume_id''} else {})
     \<union> (if bit b 4 then {''directory''} else {}) \<union> (if bit b 5 then {''archive''} else {})"
  unfolding entry_attributes_def attributes_dict_def
  by (auto simp: mask_bit) 

lemma entry_attributes_distinct: "distinct (entry_attributes b)"
  unfolding entry_attributes_def attributes_dict_def
  by (simp add: mask_bit) 

lemma py_index_Inr_less: "py_index xs i = Inr x \<Longrightarrow> i < int (length xs)"
  by (auto simp: py_index_def Let_def split: if_splits)

lemma read_directory_loop_step:
  "read_directory_loop img off acc =
     (case py_index img off of
        Inl e \<Rightarrow> Inl e
      | Inr b \<Rightarrow>
          if b \<noteq> 0 then
            (case read_entry img off of
               Inl e \<Rightarrow> Inl e
             | Inr entry \<Rightarrow> read_directory_loop img (off + 32) (acc @ [entry]))
          else Inr acc)"
  by (subst read_directory_loop.simps) (unfold entry_size_def, rule refl)

lemma read_directory_loop_acc:
  "read_directory_loop img off acc =
     (case read_directory_loop img off [] of Inl e \<Rightarrow> Inl e | Inr es \<Rightarrow> Inr (acc @ es))"
proof (induction "nat (int (length img) - off)" arbitrary: off acc rule: less_induct)
  case less
  show ?case
  proof (cases "py_index img off")
    case (Inl e)
    then show ?thesis by (simp add: read_directory_loop_step [of img off])
  next
    case b: (Inr b)
    show ?thesis
    proof (cases "b = 0")
      case True
      with b show ?thesis by (simp add: read_directory_loop_step [of img off])
    next
      case False
      show ?thesis
      proof (cases "read_entry img off")
        case (Inl e)
        with b False show ?thesis by (simp add: read_directory_loop_step [of img off])
      next
        case (Inr en)
        have "nat (int (length img) - (off + 32)) < nat (int (length img) - off)"
          using py_index_Inr_less [OF b] by simp
        then have IH: "read_directory_loop img (off + 32) a =
            (case read_directory_loop img (off + 32) [] of Inl e \<Rightarrow> Inl e
             | Inr es \<Rightarrow> Inr (a @ es))" for a
          by (rule less)
        have s: "read_directory_loop img off a = read_directory_loop img (off + 32) (a @ [en])" for a
          using b False Inr by (simp add: read_directory_loop_step [of img off])
        show ?thesis
          unfolding s using IH [of "acc @ [en]"] IH [of "[] @ [en]"]
          by (simp split: sum.splits)
      qed
    qed
  qed
qed

lemma read_directory_unfold:
  "read_directory img off =
     (case py_index img off of
        Inl e \<Rightarrow> Inl e
      | Inr b \<Rightarrow>
          if b \<noteq> 0 then
            (case read_entry img off of
               Inl e \<Rightarrow> Inl e
             | Inr entry \<Rightarrow>
                 (case read_directory img (off + 32) of
                    Inl e \<Rightarrow> Inl e
                  | Inr es \<Rightarrow> Inr (entry # es)))
          else Inr [])"
  unfolding read_directory_def
  by (subst read_directory_loop_step, subst read_directory_loop_acc)
     (simp split: sum.splits)

lemma all_less_Suc_split: "(\<forall>i < Suc n. P i) \<longleftrightarrow> P 0 \<and> (\<forall>i < n. P (Suc i))"
  by (auto simp: less_Suc_eq_0_disj)

lemma read_directory_Cons:
  "read_directory img off = Inr (en # es) \<longleftrightarrow>
     (\<exists>b. py_index img off = Inr b \<and> b \<noteq> 0) \<and> read_entry img off = Inr en
     \<and> read_directory img (off + 32) = Inr es"
  by (subst read_directory_unfold) (auto split: sum.splits)

lemma read_directory_Nil: "read_directory img off = Inr [] \<longleftrightarrow> py_index img off = Inr 0"
  by (subst read_directory_unfold) (auto split: sum.splits)

lemma read_directory_iff:
  "read_directory img off = Inr entries \<longleftrightarrow>
     py_index img (off + 32 * int (length entries)) = Inr 0
     \<and> (\<forall>i < length entries.
          (\<exists>b. py_index img (off + 32 * int i) = Inr b \<and> b \<noteq> 0)
          \<and> read_entry img (off + 32 * int i) = Inr (entries ! i))"
proof (induction entries arbitrary: off)
  case Nil
  show ?case by (simp add: read_directory_Nil)
next
  case (Cons en es)
  let ?Q = "\<lambda>i. (\<exists>b. py_index img (off + 32 * int i) = Inr b \<and> b \<noteq> 0)
            \<and> read_entry img (off + 32 * int i) = Inr ((en # es) ! i)"
  have shift: "off + 32 + 32 * int i = off + 32 * int (Suc i)" for i
    by simp
  have "read_directory img (off + 32) = Inr es \<longleftrightarrow>
      py_index img (off + 32 * int (Suc (length es))) = Inr 0 \<and> (\<forall>i < length es. ?Q (Suc i))"
    unfolding Cons.IH [of "off + 32"] shift by simp
  moreover have "(\<exists>b. py_index img off = Inr b \<and> b \<noteq> 0) \<and> read_entry img off = Inr en \<longleftrightarrow> ?Q 0"
    by simp
  ultimately have "read_directory img off = Inr (en # es) \<longleftrightarrow>
      py_index img (off + 32 * int (Suc (length es))) = Inr 0 \<and> ?Q 0 \<and> (\<forall>i < length es. ?Q (Suc i))"
    unfolding read_directory_Cons by blast
  also have "(?Q 0 \<and> (\<forall>i < length es. ?Q (Suc i))) = (\<forall>i < Suc (length es). ?Q i)"
    by (rule all_less_Suc_split [symmetric])
  finally show ?case by simp
qed

lemma clusters_loop_stop: "clusters_loop r acc (False, v) = Some (Inr acc)"
  by (subst clusters_loop.simps) simp

lemma clusters_loop_next:
  "clusters_loop r acc (True, v) =
     (case check_next_in_fat r v of
        Inl e \<Rightarrow> Some (Inl e)
      | Inr t \<Rightarrow> clusters_loop r (acc @ [v]) t)"
  by (subst clusters_loop.simps) (simp cong: sum.case_cong)

lemma chain_ends_returns:
  assumes "chain_ends r c"
  shows "\<exists>res. (case check_next_in_fat r c of
                  Inl e \<Rightarrow> Some (Inl e)
                | Inr t \<Rightarrow> clusters_loop r acc t) = Some res"
  using assms
proof (induction arbitrary: acc)
  case (unreadable c e)
  then show ?case by simp
next
  case (notable c v)
  then show ?case by (simp add: clusters_loop_stop)
next
  case (link c v)
  from link.IH [of "acc @ [v]"] link.hyps show ?case
    by (simp add: clusters_loop_next)
qed

lemma clusters_loop_chain_ends:
  assumes "clusters_loop r acc t = Some res"
  shows "fst t \<longrightarrow> chain_ends r (snd t)"
proof (rule clusters_loop.raw_induct
    [where P = "\<lambda>r acc t res. fst t \<longrightarrow> chain_ends r (snd t)", OF _ assms])
  fix loop :: "fat16_reader \<Rightarrow> int list \<Rightarrow> bool \<times> int \<Rightarrow> (exn + int list) option"
    and r acc t res
  assume IH: "\<And>r acc t res. loop r acc t = Some res \<Longrightarrow> fst t \<longrightarrow> chain_ends r (snd t)"
  assume eq: "(if fst t = True then
        (case check_next_in_fat r (snd t) of
           Inl e \<Rightarrow> Some (Inl e)
         | Inr t' \<Rightarrow> loop r (acc @ [snd t]) t')
      else Some (Inr acc)) = Some res"
  show "fst t \<longrightarrow> chain_ends r (snd t)"
  proof
    assume True: "fst t"
    show "chain_ends r (snd t)"
    proof (cases "check_next_in_fat r (snd t)")
      case (Inl e)
      then show ?thesis by (rule chain_ends.unreadable)
    next
      case (Inr t')
      with True eq have "loop r (acc @ [snd t]) t' = Some res" by simp
      then have next_ends: "fst t' \<longrightarrow> chain_ends r (snd t')" by (rule IH)
      show ?thesis
      proof (cases "fst t'")
        case False
        with Inr have "check_next_in_fat r (snd t) = Inr (False, snd t')"
          by (cases t') simp
        then show ?thesis by (rule chain_ends.notable)
      next
        case True
        with Inr have "check_next_in_fat r (snd t) = Inr (True, snd t')"
          by (cases t') simp
        moreover from True next_ends have "chain_ends r (snd t')" by simp
        ultimately show ?thesis by (rule chain_ends.link)
      qed
    qed
  qed
qed

lemma get_clusters_list_returns_iff:
  "(\<exists>res. get_clusters_list r entry = Some res) \<longleftrightarrow>
     cluster_number entry = 0 \<or> chain_ends r (cluster_number entry)"
proof (cases "cluster_number entry = 0")
  case True
  then show ?thesis by (simp add: get_clusters_list_def)
next
  case False
  show ?thesis
  proof
    assume "\<exists>res. get_clusters_list r entry = Some res"
    then obtain res where res: "get_clusters_list r entry = Some res" ..
    have "chain_ends r (cluster_number entry)"
    proof (cases "check_next_in_fat r (cluster_number entry)")
      case (Inl e)
      then show ?thesis by (rule chain_ends.unreadable)
    next
      case (Inr t)
      with res False have loop: "clusters_loop r [cluster_number entry] t = Some res"
        by (simp add: get_clusters_list_def)
      show ?thesis
      proof (cases "fst t")
        case False
        with Inr have "check_next_in_fat r (cluster_number entry) = Inr (False, snd t)"
          by (cases t) simp
        then show ?thesis by (rule chain_ends.notable)
      next
        case True
        with Inr have "check_next_in_fat r (cluster_number entry) = Inr (True, snd t)"
          by (cases t) simp
        moreover from clusters_loop_chain_ends [OF loop] True have "chain_ends r (snd t)"
          by simp
        ultimately show ?thesis by (rule chain_ends.link)
      qed
    qed
    then show "cluster_number entry = 0 \<or> chain_ends r (cluster_number entry)" ..
  next
    assume "cluster_number entry = 0 \<or> chain_ends r (cluster_number entry)"
    with False have "chain_ends r (cluster_number entry)" by simp
    from chain_ends_returns [OF this, of "[cluster_number entry]"] False
    show "\<exists>res. get_clusters_list r entry = Some res"
      by (simp add: get_clusters_list_def)
  qed
qed

lemma py_slice_length:
  assumes "0 \<le> a" "a \<le> b"
  shows "length (py_slice xs a b) = nat (min b (int (length xs))) - nat (min a (int (length xs)))"
  using assms
  apply (simp add: py_slice_def slice_bound_def Let_def min_def)
  apply arith
  done

lemma read_ushort_short:
  assumes "0 \<le> off" "int (length img) < off + 2"
  shows "read_ushort img off = Inl StructError"
  using assms by (auto simp: read_ushort_def struct_unpack_def py_slice_length min_def)

lemma read_ushort_ok:
  assumes "0 \<le> off" "off + 2 \<le> int (length img)"
  shows "\<exists>v. read_ushort img off = Inr v"
  using assms by (auto simp: read_ushort_def struct_unpack_def py_slice_length min_def)

lemma py_index_ok:
  assumes "0 \<le> i" "i < int (length xs)"
  shows "\<exists>v. py_index xs i = Inr v"
  using assms by (auto simp: py_index_def Let_def)

lemma read_boot_sector_short:
  assumes "length (image r) < 24"
  shows "read_boot_sector r = Inl StructError"
proof (cases "length (image r) < 16")
  case True
  then have "read_ushort (image r) 14 = Inl StructError"
    by (intro read_ushort_short) auto
  then show ?thesis by (simp add: read_boot_sector_def)
next
  case False
  then obtain a b c where "read_ushort (image r) 14 = Inr a" "read_ushort (image r) 11 = Inr b"
    "py_index (image r) 13 = Inr c"
    using read_ushort_ok [of 14 "image r"] read_ushort_ok [of 11 "image r"] py_index_ok [of 13 "image r"]
    by auto
  moreover have "read_ushort (image r) 22 = Inl StructError"
    using assms by (intro read_ushort_short) auto
  ultimately show ?thesis by (simp add: read_boot_sector_def)
qed

lemma fat16_init_short:
  assumes "length file_contents < 24"
  shows "fat16_init file_contents do_print = Inl StructError"
  using assms by (simp add: fat16_init_def read_boot_sector_short)

subsection \<open>The FAT walk does not look at the listing\<close>

lemma check_next_in_fat_entries:
  "check_next_in_fat (r\<lparr>current_entries := es\<rparr>) c = check_next_in_fat r c"
  by (simp add: check_next_in_fat_def)

lemma clusters_loop_same_fat:
  assumes "clusters_loop r acc t = Some res"
    and "\<forall>c. check_next_in_fat r' c = check_next_in_fat r c"
  shows "clusters_loop r' acc t = Some res"
proof -
  have "\<forall>r'. (\<forall>c. check_next_in_fat r' c = check_next_in_fat r c)
          \<longrightarrow> clusters_loop r' acc t = Some res"
  proof (rule clusters_loop.raw_induct
      [where P = "\<lambda>r acc t res. \<forall>r'. (\<forall>c. check_next_in_fat r' c = check_next_in_fat r c)
          \<longrightarrow> clusters_loop r' acc t = Some res", OF _ assms(1)])
    fix loop :: "fat16_reader \<Rightarrow> int list \<Rightarrow> bool \<times> int \<Rightarrow> (exn + int list) option"
      and r acc t res
    assume IH: "\<And>r acc t res. loop r acc t = Some res \<Longrightarrow>
        \<forall>r'. (\<forall>c. check_next_in_fat r' c = check_next_in_fat r c)
          \<longrightarrow> clusters_loop r' acc t = Some res"
    assume eq: "(if fst t = True then
          (case check_next_in_fat r (snd t) of
             Inl e \<Rightarrow> Some (Inl e)
           | Inr t' \<Rightarrow> loop r (acc @ [snd t]) t')
        else Some (Inr acc)) = Some res"
    show "\<forall>r'. (\<forall>c. check_next_in_fat r' c = check_next_in_fat r c)
          \<longrightarrow> clusters_loop r' acc t = Some res"
    proof (intro allI impI)
      fix r'
      assume same: "\<forall>c. check_next_in_fat r' c = check_next_in_fat r c"
      show "clusters_loop r' acc t = Some res"
      proof (cases "fst t")
        case False
        with eq show ?thesis by (subst clusters_loop.simps) simp
      next
        case True
        show ?thesis
        proof (cases "check_next_in_fat r (snd t)")
          case (Inl e)
          with True eq same show ?thesis by (subst clusters_loop.simps) simp
        next
          case (Inr t')
          with True eq have "loop r (acc @ [snd t]) t' = Some res" by simp
          from IH [OF this] same have "clusters_loop r' (acc @ [snd t]) t' = Some res"
            by blast
          with True Inr same show ?thesis by (subst clusters_loop.simps) simp
        qed
      qed
    qed
  qed
  with assms(2) show ?thesis by blast
qed

lemma clusters_loop_entries:
  "clusters_loop (r\<lparr>current_entries := es\<rparr>) acc t = clusters_loop r acc t"
proof (cases "clusters_loop r acc t")
  case (Some res)
  then have "clusters_loop (r\<lparr>current_entries := es\<rparr>) acc t = Some res"
    by (rule clusters_loop_same_fat) (simp add: check_next_in_fat_entries)
  with Some show ?thesis by simp
next
  case None
  show ?thesis
  proof (cases "clusters_loop (r\<lparr>current_entries := es\<rparr>) acc t")
    case (Some res)
    then have "clusters_loop r acc t = Some res"
      by (rule clusters_loop_same_fat) (simp add: check_next_in_fat_entries)
    with None show ?thesis by simp
  next
    case None
    with \<open>clusters_loop r acc t = None\<close> show ?thesis by simp
  qed
qed

lemma get_clusters_list_entries:
  "get_clusters_list (r\<lparr>current_entries := es\<rparr>) entry = get_clusters_list r entry"
  by (simp add: get_clusters_list_def clusters_loop_entries check_next_in_fat_entries
      cong: sum.case_cong)

subsection \<open>What \<open>cd\<close> changes\<close>

lemma cd_extend_frame:
  "cd_extend r cs = (out, r') \<Longrightarrow> \<exists>es. r' = r\<lparr>current_entries := es\<rparr>"
proof (induction cs arbitrary: r)
  case Nil
  then have "r' = r\<lparr>current_entries := current_entries r\<rparr>" by simp
  then show ?case ..
next
  case (Cons c cs)
  show ?case
  proof (cases "read_directory (image r) (cluster_start r c)")
    case (Inl e)
    with Cons.prems have "r' = r\<lparr>current_entries := current_entries r\<rparr>" by simp
    then show ?thesis ..
  next
    case (Inr entries)
    with Cons.prems
    have "cd_extend (r\<lparr>current_entries := current_entries r @ entries\<rparr>) cs = (out, r')"
      by simp
    from Cons.IH [OF this] obtain es
      where "r' = r\<lparr>current_entries := current_entries r @ entries\<rparr>\<lparr>current_entries := es\<rparr>" ..
    then have "r' = r\<lparr>current_entries := es\<rparr>" by simp
    then show ?thesis ..
  qed
qed

lemma cd_set_current_entries_entries:
  "cd_set_current_entries (r\<lparr>current_entries := es\<rparr>) cs = cd_set_current_entries r cs"
  by (simp add: cd_set_current_entries_def)

lemma cd_set_current_entries_frame:
  assumes "cd_set_current_entries r cs = (out, r')"
  shows "\<exists>es. r' = r\<lparr>current_entries := es\<rparr>"
proof -
  from assms have "cd_extend (r\<lparr>current_entries := []\<rparr>) cs = (out, r')"
    by (simp add: cd_set_current_entries_def)
  from cd_extend_frame [OF this] obtain es
    where "r' = r\<lparr>current_entries := []\<rparr>\<lparr>current_entries := es\<rparr>" ..
  then have "r' = r\<lparr>current_entries := es\<rparr>" by simp
  then show ?thesis ..
qed

lemma cd_enter_frame:
  assumes "cd_enter r entry = Some (out, r')"
  shows "\<exists>es. r' = r\<lparr>current_entries := es\<rparr>"
proof -
  have same: "\<exists>es. r = r\<lparr>current_entries := es\<rparr>"
  proof
    show "r = r\<lparr>current_entries := current_entries r\<rparr>" by simp
  qed
  show ?thesis
  proof (cases "get_clusters_list r entry")
    case None
    with assms show ?thesis by (simp add: cd_enter_def)
  next
    case (Some res)
    show ?thesis
    proof (cases res)
      case (Inl e)
      with Some assms have "r' = r" by (simp add: cd_enter_def)
      with same show ?thesis by simp
    next
      case (Inr cl)
      show ?thesis
      proof (cases "cl = []")
        case False
        with Some Inr assms have "cd_set_current_entries r cl = (out, r')"
          by (simp add: cd_enter_def)
        then show ?thesis by (rule cd_set_current_entries_frame)
      next
        case True
        show ?thesis
        proof (cases "read_directory (image r) (root_directory_offset r)")
          case (Inl e)
          with True Some Inr assms have "r' = r" by (simp add: cd_enter_def)
          with same show ?thesis by simp
        next
          case entries: (Inr entries)
          with True Some Inr assms have "r' = r\<lparr>current_entries := entries\<rparr>"
            by (simp add: cd_enter_def)
          then show ?thesis ..
        qed
      qed
    qed
  qed
qed

lemma cd_enter_entries:
  assumes "cd_enter (r\<lparr>current_entries := es\<rparr>) entry = Some (Inr u, s)"
  shows "cd_enter r entry = Some (Inr u, s)"
proof (cases "get_clusters_list r entry")
  case None
  with assms show ?thesis by (simp add: cd_enter_def get_clusters_list_entries)
next
  case (Some res)
  show ?thesis
  proof (cases res)
    case (Inl e)
    with Some assms show ?thesis by (simp add: cd_enter_def get_clusters_list_entries)
  next
    case (Inr cl)
    show ?thesis
    proof (cases "cl = []")
      case False
      with Some Inr assms show ?thesis
        by (simp add: cd_enter_def get_clusters_list_entries cd_set_current_entries_entries)
    next
      case True
      show ?thesis
      proof (cases "read_directory (image r) (root_directory_offset r)")
        case (Inl e)
        with True Some Inr assms show ?thesis
          by (simp add: cd_enter_def get_clusters_list_entries)
      next
        case entries: (Inr entries)
        with True Some Inr assms show ?thesis
          by (simp add: cd_enter_def get_clusters_list_entries)
      qed
    qed
  qed
qed

lemma cd_loop_frame:
  "cd_loop r name found xs = Some (out, r') \<Longrightarrow> \<exists>es. r' = r\<lparr>current_entries := es\<rparr>"
proof (induction xs arbitrary: r found)
  case Nil
  then have "r' = r\<lparr>current_entries := current_entries r\<rparr>" by simp
  then show ?case ..
next
  case (Cons e xs)
  show ?case
  proof (cases "cd_test name e")
    case False
    with Cons.prems have "cd_loop r name found xs = Some (out, r')" by simp
    then show ?thesis by (rule Cons.IH)
  next
    case True
    show ?thesis
    proof (cases "cd_enter r e")
      case None
      with True Cons.prems show ?thesis by simp
    next
      case (Some p)
      obtain o1 r1 where p: "p = (o1, r1)" by (cases p)
      from Some p have "cd_enter r e = Some (o1, r1)" by simp
      from cd_enter_frame [OF this] obtain es1 where r1: "r1 = r\<lparr>current_entries := es1\<rparr>" ..
      show ?thesis
      proof (cases o1)
        case (Inl x)
        with True Some p Cons.prems have "r' = r1" by simp
        with r1 show ?thesis by blast
      next
        case (Inr u)
        with True Some p Cons.prems have "cd_loop r1 name True xs = Some (out, r')" by simp
        from Cons.IH [OF this] obtain es
          where "r' = r1\<lparr>current_entries := es\<rparr>" ..
        with r1 have "r' = r\<lparr>current_entries := es\<rparr>" by simp
        then show ?thesis ..
      qed
    qed
  qed
qed

lemma cd_loop_no_match:
  "\<forall>e \<in> set xs. \<not> cd_test name e \<Longrightarrow> cd_loop r name found xs = Some (Inr found, r)"
  by (induction xs) simp_all

lemma cd_loop_Cons_match:
  assumes "cd_test name e" and "cd_loop r name found (e # xs) = Some (Inr f, r')"
  shows "\<exists>r1. cd_enter r e = Some (Inr (), r1) \<and> cd_loop r1 name True xs = Some (Inr f, r')"
proof (cases "cd_enter r e")
  case None
  with assms show ?thesis by simp
next
  case (Some p)
  obtain o1 r1 where p: "p = (o1, r1)" by (cases p)
  show ?thesis
  proof (cases o1)
    case (Inl x)
    with assms Some p show ?thesis by simp
  next
    case (Inr u)
    with assms Some p have "cd_enter r e = Some (Inr (), r1)"
      and "cd_loop r1 name True xs = Some (Inr f, r')" by simp_all
    then show ?thesis by blast
  qed
qed

lemma cd_loop_found:
  "cd_loop r name found xs = Some (Inr f, r') \<Longrightarrow> f = (found \<or> (\<exists>e \<in> set xs. cd_test name e))"
proof (induction xs arbitrary: r found)
  case Nil
  then show ?case by simp
next
  case (Cons e xs)
  show ?case
  proof (cases "cd_test name e")
    case False
    with Cons.prems have "cd_loop r name found xs = Some (Inr f, r')" by simp
    from Cons.IH [OF this] False show ?thesis by simp
  next
    case True
    from cd_loop_Cons_match [OF True Cons.prems] obtain r1
      where "cd_loop r1 name True xs = Some (Inr f, r')" by blast
    from Cons.IH [OF this] True show ?thesis by simp
  qed
qed

lemma cd_loop_last:
  assumes "cd_loop r name found xs = Some (Inr f, r')" and "filter (cd_test name) xs \<noteq> []"
  shows "cd_enter r (last (filter (cd_test name) xs)) = Some (Inr (), r')"
  using assms
proof (induction xs arbitrary: r found)
  case Nil
  then show ?case by simp
next
  case (Cons e xs)
  show ?case
  proof (cases "cd_test name e")
    case False
    with Cons.prems have "cd_loop r name found xs = Some (Inr f, r')"
      and "filter (cd_test name) xs \<noteq> []" by simp_all
    from Cons.IH [OF this] False show ?thesis by simp
  next
    case True
    from cd_loop_Cons_match [OF True Cons.prems(1)] obtain r1
      where enter: "cd_enter r e = Some (Inr (), r1)"
      and rest: "cd_loop r1 name True xs = Some (Inr f, r')" by blast
    show ?thesis
    proof (cases "filter (cd_test name) xs = []")
      case True
      then have "\<forall>e \<in> set xs. \<not> cd_test name e" by (simp add: filter_empty_conv)
      from cd_loop_no_match [OF this, of r1 True] rest have "r' = r1" by simp
      with enter True \<open>cd_test name e\<close> show ?thesis by simp
    next
      case False
      from cd_enter_frame [OF enter] obtain es1
        where r1: "r1 = r\<lparr>current_entries := es1\<rparr>" ..
      from Cons.IH [OF rest False]
      have "cd_enter (r\<lparr>current_entries := es1\<rparr>) (last (filter (cd_test name) xs))
          = Some (Inr (), r')"
        unfolding r1 .
      then have "cd_enter r (last (filter (cd_test name) xs)) = Some (Inr (), r')"
        by (rule cd_enter_entries)
      with False \<open>cd_test name e\<close> show ?thesis by simp
    qed
  qed
qed


subsection \<open>Which exceptions the reading methods raise\<close>

lemma utf8_decode_error: "utf8_decode bs = Inl e \<Longrightarrow> e = UnicodeDecodeError"
proof (induction bs arbitrary: e rule: length_induct)
  case (1 bs)
  show ?case
  proof (cases bs)
    case Nil
    with "1.prems" show ?thesis by simp
  next
    case (Cons b r)
    have IH: "utf8_decode s = Inl e \<Longrightarrow> length s < length bs \<Longrightarrow> e = UnicodeDecodeError" for s
      using "1.IH" by blast
    from "1.prems" Cons show ?thesis
      by (auto split: if_splits sum.splits list.splits) (erule IH, simp)+
  qed
qed

lemma read_ushort_error: "read_ushort img off = Inl e \<Longrightarrow> e = StructError"
  by (simp add: read_ushort_def struct_unpack_def split: if_splits)

lemma py_index_error: "py_index xs i = Inl e \<Longrightarrow> e = IndexError"
  by (simp add: py_index_def split: if_splits)

lemma read_entry_error:
  assumes "read_entry img off = Inl e"
  shows "e \<in> {IndexError, StructError, UnicodeDecodeError}"
  using assms unfolding read_entry_def Let_def decode_def
  by (auto split: sum.splits
      dest: utf8_decode_error read_ushort_error py_index_error
      simp: struct_unpack_def split: if_splits)

lemma read_directory_error:
  "read_directory img off = Inl e \<Longrightarrow> e \<in> {IndexError, StructError, UnicodeDecodeError}"
proof (induction "nat (int (length img) - off)" arbitrary: off rule: less_induct)
  case less
  show ?case
  proof (cases "py_index img off")
    case (Inl x)
    with less.prems have "e = x" by (subst (asm) read_directory_unfold) simp
    with Inl show ?thesis by (auto dest: py_index_error)
  next
    case b: (Inr b)
    show ?thesis
    proof (cases "b = 0")
      case True
      with b less.prems show ?thesis by (subst (asm) read_directory_unfold) simp
    next
      case False
      show ?thesis
      proof (cases "read_entry img off")
        case (Inl x)
        with b False less.prems have "e = x" by (subst (asm) read_directory_unfold) simp
        with Inl show ?thesis by (auto dest: read_entry_error)
      next
        case (Inr en)
        with b False less.prems have "read_directory img (off + 32) = Inl e"
          by (subst (asm) read_directory_unfold) (simp split: sum.splits)
        moreover have "nat (int (length img) - (off + 32)) < nat (int (length img) - off)"
          using py_index_Inr_less [OF b] by simp
        ultimately show ?thesis by (rule less.hyps [rotated])
      qed
    qed
  qed
qed

lemma check_next_in_fat_error: "check_next_in_fat r c = Inl e \<Longrightarrow> e = StructError"
  by (auto simp: check_next_in_fat_def split: sum.splits dest: read_ushort_error)

lemma clusters_loop_error:
  assumes "clusters_loop r acc t = Some res"
  shows "\<forall>e. res = Inl e \<longrightarrow> e = StructError"
proof (rule clusters_loop.raw_induct
    [where P = "\<lambda>r acc t res. \<forall>e. res = Inl e \<longrightarrow> e = StructError", OF _ assms])
  fix loop :: "fat16_reader \<Rightarrow> int list \<Rightarrow> bool \<times> int \<Rightarrow> (exn + int list) option"
    and r acc t res
  assume IH: "\<And>r acc t res. loop r acc t = Some res \<Longrightarrow> \<forall>e. res = Inl e \<longrightarrow> e = StructError"
  assume eq: "(if fst t = True then
        (case check_next_in_fat r (snd t) of
           Inl e \<Rightarrow> Some (Inl e)
         | Inr t' \<Rightarrow> loop r (acc @ [snd t]) t')
      else Some (Inr acc)) = Some res"
  show "\<forall>e. res = Inl e \<longrightarrow> e = StructError"
  proof (cases "fst t")
    case False
    with eq show ?thesis by auto
  next
    case True
    show ?thesis
    proof (cases "check_next_in_fat r (snd t)")
      case (Inl x)
      with True eq have "res = Inl x" by simp
      with Inl show ?thesis by (auto dest: check_next_in_fat_error)
    next
      case (Inr t')
      with True eq have "loop r (acc @ [snd t]) t' = Some res" by simp
      then show ?thesis by (rule IH)
    qed
  qed
qed

lemma get_clusters_list_error:
  assumes "get_clusters_list r entry = Some (Inl e)"
  shows "e = StructError"
proof (cases "cluster_number entry = 0")
  case True
  with assms show ?thesis by (simp add: get_clusters_list_def)
next
  case False
  show ?thesis
  proof (cases "check_next_in_fat r (cluster_number entry)")
    case (Inl x)
    with False assms have "e = x" by (simp add: get_clusters_list_def)
    with Inl show ?thesis by (auto dest: check_next_in_fat_error)
  next
    case (Inr t)
    with False assms have "clusters_loop r [cluster_number entry] t = Some (Inl e)"
      by (simp add: get_clusters_list_def)
    from clusters_loop_error [OF this] show ?thesis by simp
  qed
qed

lemma cd_extend_error:
  "cd_extend r cs = (Inl e, r') \<Longrightarrow> e \<in> {IndexError, StructError, UnicodeDecodeError}"
proof (induction cs arbitrary: r)
  case Nil
  then show ?case by simp
next
  case (Cons c cs)
  show ?case
  proof (cases "read_directory (image r) (cluster_start r c)")
    case (Inl x)
    with Cons.prems have "e = x" by simp
    with Inl show ?thesis by (auto dest: read_directory_error)
  next
    case (Inr entries)
    with Cons.prems
    have "cd_extend (r\<lparr>current_entries := current_entries r @ entries\<rparr>) cs = (Inl e, r')"
      by simp
    then show ?thesis by (rule Cons.IH)
  qed
qed

lemma cd_enter_error:
  assumes "cd_enter r entry = Some (Inl e, r')"
  shows "e \<in> {IndexError, StructError, UnicodeDecodeError}"
proof (cases "get_clusters_list r entry")
  case None
  with assms show ?thesis by (simp add: cd_enter_def)
next
  case (Some res)
  show ?thesis
  proof (cases res)
    case (Inl x)
    with Some assms have "e = x" by (simp add: cd_enter_def)
    with Some Inl show ?thesis by (auto dest: get_clusters_list_error)
  next
    case (Inr cl)
    show ?thesis
    proof (cases "cl = []")
      case False
      with Some Inr assms have "cd_extend (r\<lparr>current_entries := []\<rparr>) cl = (Inl e, r')"
        by (simp add: cd_enter_def cd_set_current_entries_def)
      then show ?thesis by (rule cd_extend_error)
    next
      case True
      show ?thesis
      proof (cases "read_directory (image r) (root_directory_offset r)")
        case (Inl x)
        with True Some Inr assms have "e = x" by (simp add: cd_enter_def)
        with Inl show ?thesis by (auto dest: read_directory_error)
      next
        case entries: (Inr entries)
        with True Some Inr assms show ?thesis by (simp add: cd_enter_def)
      qed
    qed
  qed
qed

lemma cd_loop_error:
  "cd_loop r name found xs = Some (Inl e, r') \<Longrightarrow> e \<in> {IndexError, StructError, UnicodeDecodeError}"
proof (induction xs arbitrary: r found)
  case Nil
  then show ?case by simp
next
  case (Cons x xs)
  show ?case
  proof (cases "cd_test name x")
    case False
    with Cons.prems have "cd_loop r name found xs = Some (Inl e, r')" by simp
    then show ?thesis by (rule Cons.IH)
  next
    case True
    show ?thesis
    proof (cases "cd_enter r x")
      case None
      with True Cons.prems show ?thesis by simp
    next
      case (Some p)
      obtain o1 r1 where p: "p = (o1, r1)" by (cases p)
      show ?thesis
      proof (cases o1)
        case (Inl y)
        with True Some p Cons.prems have "cd_enter r x = Some (Inl e, r1)" by simp
        then show ?thesis by (rule cd_enter_error)
      next
        case (Inr u)
        with True Some p Cons.prems have "cd_loop r1 name True xs = Some (Inl e, r')" by simp
        then show ?thesis by (rule Cons.IH)
      qed
    qed
  qed
qed

subsection \<open>\<open>open_file\<close> and \<open>_compose_file\<close>\<close>

lemma compose_loop_acc:
  "compose_loop r n acc cs = acc @ compose_loop r n [] cs"
proof (induction cs arbitrary: n acc)
  case Nil
  show ?case by simp
next
  case (Cons c cs)
  have step: "compose_loop r m (a @ [x]) cs = a @ x # compose_loop r m [] cs" for m a x
    using Cons.IH [of m "a @ [x]"] Cons.IH [of m "[x]"] by simp
  show ?case
    by (simp add: Let_def step step [of _ "[]", simplified])
qed

lemma compose_file_first:
  "compose_file r (c # rest) entry =
     Inr \<lparr>file_info.filename = filename entry, extension = extension entry,
          filesize = filesize entry,
          bytes = py_slice (image r) (cluster_start r c)
            (cluster_start r c + min (filesize entry) (cluster_size r * sector_size r))\<rparr>"
proof -
  have "\<exists>tl. compose_loop r (filesize entry) [] (c # rest) =
      py_slice (image r) (cluster_start r c)
        (cluster_start r c + min (filesize entry) (cluster_size r * sector_size r)) # tl"
    by (simp add: Let_def min_def compose_loop_acc [of _ _ "[x]" for x])
  then obtain tl where "compose_loop r (filesize entry) [] (c # rest) =
      py_slice (image r) (cluster_start r c)
        (cluster_start r c + min (filesize entry) (cluster_size r * sector_size r)) # tl" ..
  then show ?thesis by (simp add: compose_file_def py_index_def)
qed

lemma compose_file_empty: "compose_file r [] entry = Inl IndexError"
  by (simp add: compose_file_def py_index_def)

lemma py_slice_within:
  assumes "0 \<le> a" "a \<le> b" "b \<le> int (length xs)"
  shows "py_slice xs a b = take (nat (b - a)) (drop (nat a) xs)"
  using assms by (simp add: py_slice_def slice_bound_def Let_def nat_diff_distrib)

lemma open_file_loop_no_match:
  "\<forall>e \<in> set xs. filename e \<noteq> name \<Longrightarrow>
     open_file_loop r name found file xs = Some (Inr (found, file))"
  by (induction xs) simp_all

lemma open_file_loop_unique:
  assumes "\<forall>e \<in> set pre. filename e \<noteq> name" and "\<forall>e \<in> set post. filename e \<noteq> name"
    and "filename entry = name" and "open_file_test entry"
    and "get_clusters_list r entry = Some (Inr cl)" and "compose_file r cl entry = Inr f"
  shows "open_file_loop r name found file (pre @ entry # post) = Some (Inr (True, Some f))"
  using assms(1)
proof (induction pre)
  case Nil
  with assms(2-) show ?case by (simp add: open_file_loop_no_match)
next
  case (Cons x pre)
  then show ?case by simp
qed

lemma open_file_frame: "open_file r name = Some (out, r') \<Longrightarrow> r' = r"
  by (auto simp: open_file_def split: option.splits sum.splits if_splits prod.splits)

lemma cd_result:
  assumes "cd r name = Some (Inr res, r')"
  shows "\<exists>f. cd_loop r name False (current_entries r) = Some (Inr f, r')
           \<and> res = (if f then Some (current_entries r') else None)"
proof (cases "cd_loop r name False (current_entries r)")
  case None
  with assms show ?thesis by (simp add: cd_def)
next
  case (Some p)
  obtain o1 r1 where p: "p = (o1, r1)" by (cases p)
  show ?thesis
  proof (cases o1)
    case (Inl e)
    with Some p assms show ?thesis by (simp add: cd_def)
  next
    case (Inr f)
    with Some p assms show ?thesis by (auto simp: cd_def split: if_splits)
  qed
qed

lemma cd_no_match:
  assumes "\<forall>e \<in> set (current_entries r). \<not> cd_test name e"
  shows "cd r name =
     Some (if do_print_on_commands r then Inr None else Inl NotADirectoryException, r)"
  using cd_loop_no_match [OF assms, of r False] by (simp add: cd_def)

lemma cd_frame:
  assumes "cd r name = Some (out, r')"
  shows "\<exists>es. r' = r\<lparr>current_entries := es\<rparr>"
proof (cases "cd_loop r name False (current_entries r)")
  case None
  with assms show ?thesis by (simp add: cd_def)
next
  case (Some p)
  obtain o1 r1 where p: "p = (o1, r1)" by (cases p)
  with Some have loop: "cd_loop r name False (current_entries r) = Some (o1, r1)" by simp
  from Some p assms have "r' = r1"
    by (cases o1) (auto simp: cd_def split: if_splits)
  with cd_loop_frame [OF loop] show ?thesis by simp
qed

lemma cd_not_a_directory:
  assumes "cd r name = Some (Inl NotADirectoryException, r')"
  shows "r' = r"
proof (cases "cd_loop r name False (current_entries r)")
  case None
  with assms show ?thesis by (simp add: cd_def)
next
  case (Some p)
  obtain o1 r1 where p: "p = (o1, r1)" by (cases p)
  with Some have loop: "cd_loop r name False (current_entries r) = Some (o1, r1)" by simp
  show ?thesis
  proof (cases o1)
    case (Inl e)
    with loop assms have "cd_loop r name False (current_entries r)
        = Some (Inl NotADirectoryException, r1)"
      by (simp add: cd_def)
    from cd_loop_error [OF this] show ?thesis by simp
  next
    case (Inr f)
    with loop assms have "\<not> f" and "r' = r1"
      by (auto simp: cd_def split: if_splits)
    with cd_loop_found [of r name False "current_entries r" f r1] loop Inr
    have none: "\<forall>e \<in> set (current_entries r). \<not> cd_test name e" by simp
    from cd_loop_no_match [OF none, of r False] loop have "r1 = r" by simp
    with \<open>r' = r1\<close> show ?thesis by simp
  qed
qed

subsection \<open>The test images, evaluated\<close>

lemmas eval_defs = py_slice_def slice_bound_def py_index_def read_ushort_def
  struct_unpack_def decode_def is_cont_def strip_def isspace_def entry_attributes_def
  attributes_dict_def

lemma dir_image_entry_0: "read_entry dir_image 0 = Inr deleted_entry"
  by (simp add: read_entry_def eval_defs dir_image_def deleted_entry_def)

lemma dir_image_entry_32: "read_entry dir_image 32 = Inr plain_entry"
  by (simp add: read_entry_def eval_defs dir_image_def plain_entry_def)

lemma dir_image_first_bytes:
  "py_index dir_image 0 = Inr 0xE5" "py_index dir_image 32 = Inr 0x42"
  "py_index dir_image 64 = Inr 0" "py_index dir_image 96 = Inr 0x43"
  "py_index dir_image 11 = Inr 0x21"
  by (simp_all add: py_index_def dir_image_def)

lemma blank_image_fields:
  "read_ushort blank_image 14 = Inr 0" "read_ushort blank_image 11 = Inr 0"
  "py_index blank_image 13 = Inr 0" "read_ushort blank_image 22 = Inr 0"
  "py_index blank_image 16 = Inr 0" "read_ushort blank_image 17 = Inr 0"
  "py_index blank_image 0 = Inr 0"
  by (simp_all add: eval_defs blank_image_def)

lemma blank_image_root: "read_directory blank_image 0 = Inr []"
  by (simp add: read_directory_Nil blank_image_fields)

lemma blank_image_init:
  "fat16_init blank_image False =
     Inr \<lparr>do_print_on_commands = False, image = blank_image, volume_id = [],
          reserved_sectors = 0, sector_size = 0, cluster_size = 0, fat_offset = 0,
          fat_size = 0, fat_copies = 0, root_directory_offset = 0,
          root_directory_entries = 0, root_directory_size = 0, clusters_offset = 0,
          current_root = 0, current_entries = []\<rparr>"
  by (simp add: fat16_init_def read_boot_sector_def blank_image_fields blank_image_root
      entry_size_def)

lemmas disk_defs = disk_def disk_boot_def disk_fat_def disk_root_def disk_data_def

lemmas disk_entry_defs = entry_D2_def entry_G_def entry_D3_def entry_H_def entry_C_def
  entry_E_def entry_Y_def entry_up_def

lemma disk_entry_fields:
  "filename entry_G = [71]" "extension entry_G = []" "filesize entry_G = 40"
  "cluster_number entry_G = 5"
  "filename entry_H = [72]" "extension entry_H = []" "filesize entry_H = 5"
  "cluster_number entry_H = 5"
  "cluster_number entry_C = 6" "cluster_number entry_E = 7" "cluster_number entry_up = 0"
  by (simp_all add: disk_entry_defs)

lemma disk_length: "length disk = 512"
  by (simp add: disk_defs)

lemma disk_boot_fields:
  "read_ushort disk 14 = Inr 1" "read_ushort disk 11 = Inr 32" "py_index disk 13 = Inr 1"
  "read_ushort disk 22 = Inr 1" "py_index disk 16 = Inr 1" "read_ushort disk 17 = Inr 8"
  by (simp_all add: eval_defs disk_defs)

lemma disk_first_bytes:
  "py_index disk 64 = Inr 68" "py_index disk 96 = Inr 71" "py_index disk 128 = Inr 68"
  "py_index disk 160 = Inr 72" "py_index disk 192 = Inr 67" "py_index disk 224 = Inr 69"
  "py_index disk 256 = Inr 0"
  "py_index disk 320 = Inr 89" "py_index disk 352 = Inr 46" "py_index disk 384 = Inr 0"
  by (simp_all add: eval_defs disk_defs)

lemma disk_slots:
  "read_entry disk 64 = Inr entry_D2" "read_entry disk 96 = Inr entry_G"
  "read_entry disk 128 = Inr entry_D3" "read_entry disk 160 = Inr entry_H"
  "read_entry disk 192 = Inr entry_C" "read_entry disk 224 = Inr entry_E"
  "read_entry disk 320 = Inr entry_Y" "read_entry disk 352 = Inr entry_up"
  by (simp_all add: read_entry_def eval_defs disk_defs disk_entry_defs)

lemma disk_root_listing: "read_directory disk 64 = Inr disk_entries"
  unfolding disk_entries_def read_directory_iff
  by (simp add: all_less_Suc_split disk_first_bytes disk_slots)

lemma disk_cluster_listings:
  "read_directory disk 320 = Inr [entry_Y, entry_up]"
  "read_directory disk 352 = Inr [entry_up]"
  unfolding read_directory_iff
  by (simp_all add: all_less_Suc_split disk_first_bytes disk_slots)

lemma disk_init: "fat16_init disk False = Inr disk_reader"
  by (simp add: fat16_init_def read_boot_sector_def disk_boot_fields entry_size_def
      disk_root_listing disk_reader_def)

lemma disk_reader_fields:
  "image disk_reader = disk" "do_print_on_commands disk_reader = False"
  "fat_offset disk_reader = 32" "clusters_offset disk_reader = 320"
  "cluster_size disk_reader = 1" "sector_size disk_reader = 32"
  "root_directory_offset disk_reader = 64" "current_entries disk_reader = disk_entries"
  by (simp_all add: disk_reader_def)

lemma disk_fat_values:
  "read_ushort disk 36 = Inr 65535" "read_ushort disk 38 = Inr 65528"
  "read_ushort disk 42 = Inr 65535" "read_ushort disk 44 = Inr 6"
  "read_ushort disk 46 = Inr 65529" "read_ushort disk 131090 = Inl StructError"
  by (simp_all add: eval_defs disk_defs)

lemma disk_fat:
  "check_next_in_fat disk_reader 2 = Inr (False, 65535)"
  "check_next_in_fat disk_reader 3 = Inr (False, 65528)"
  "check_next_in_fat disk_reader 5 = Inr (False, 65535)"
  "check_next_in_fat disk_reader 6 = Inr (True, 6)"
  "check_next_in_fat disk_reader 7 = Inr (True, 65529)"
  "check_next_in_fat disk_reader 65529 = Inl StructError"
  by (simp_all add: check_next_in_fat_def disk_reader_fields disk_fat_values
      fat_16_notable_values_def)

lemma disk_chains:
  "get_clusters_list disk_reader entry_D2 = Some (Inr [2])"
  "get_clusters_list disk_reader entry_D3 = Some (Inr [3])"
  "get_clusters_list disk_reader entry_G = Some (Inr [5])"
  "get_clusters_list disk_reader entry_H = Some (Inr [5])"
  "get_clusters_list disk_reader entry_E = Some (Inl StructError)"
  "get_clusters_list disk_reader entry_up = Some (Inr [])"
  by (simp_all add: get_clusters_list_def disk_entry_defs disk_fat clusters_loop_stop
      clusters_loop_next)

lemma disk_cluster_starts:
  "cluster_start disk_reader 2 = 320" "cluster_start disk_reader 3 = 352"
  "cluster_start disk_reader 5 = 416"
  by (simp_all add: cluster_start_def disk_reader_fields fat_cluster_read_start_def)

lemma disk_cluster_5:
  "py_slice disk 416 448 =
     [104, 101, 108, 108, 111, 1, 2, 3, 4, 5, 6, 7, 8, 9, 10, 11, 12, 13, 14, 15, 16, 17,
      18, 19, 20, 21, 22, 23, 24, 25, 26, 27]"
  "take 5 (drop 416 disk) = [104, 101, 108, 108, 111]"
  by (simp_all add: py_slice_def slice_bound_def disk_defs)

lemma disk_no_cycle_end: "chain_ends disk_reader c \<Longrightarrow> c \<noteq> 6"
proof (induction rule: chain_ends.induct)
  case (unreadable c e)
  then show ?case by (auto simp: disk_fat)
next
  case (notable c v)
  then show ?case by (auto simp: disk_fat)
next
  case (link c v)
  then show ?case by (auto simp: disk_fat)
qed

lemma disk_cd_enter:
  "cd_enter (disk_reader\<lparr>current_entries := es\<rparr>) entry_D2 =
     Some (Inr (), disk_reader\<lparr>current_entries := [entry_Y, entry_up]\<rparr>)"
  "cd_enter (disk_reader\<lparr>current_entries := es\<rparr>) entry_D3 =
     Some (Inr (), disk_reader\<lparr>current_entries := [entry_up]\<rparr>)"
  "cd_enter (disk_reader\<lparr>current_entries := es\<rparr>) entry_up =
     Some (Inr (), disk_reader\<lparr>current_entries := disk_entries\<rparr>)"
  by (simp_all add: cd_enter_def get_clusters_list_entries disk_chains
      cd_set_current_entries_def disk_cluster_starts cluster_start_def
      fat_cluster_read_start_def disk_reader_fields disk_cluster_listings disk_root_listing)

lemma disk_tests:
  "map (cd_test [68]) disk_entries = [True, False, True, False, False, False]"
  "map (\<lambda>e. filename e = [68]) disk_entries = [True, False, True, False, False, False]"
  "map (\<lambda>e. filename e = [71]) disk_entries = [False, True, False, False, False, False]"
  "map (\<lambda>e. filename e = [72]) disk_entries = [False, False, False, True, False, False]"
  "map (\<lambda>e. filename e = []) disk_entries = [False, False, False, False, False, False]"
  "map (cd_test []) disk_entries = [False, False, False, False, False, False]"
  "map open_file_test disk_entries = [False, True, False, True, True, True]"
  "cd_test [46, 46] entry_up"
  by (simp_all add: disk_entries_def disk_entry_defs cd_test_def open_file_test_def)

lemma disk_reader_same: "disk_reader\<lparr>current_entries := disk_entries\<rparr> = disk_reader"
  by (simp add: disk_reader_def)

lemma disk_cd_enter_root:
  "cd_enter disk_reader entry_D2 =
     Some (Inr (), disk_reader\<lparr>current_entries := [entry_Y, entry_up]\<rparr>)"
  "cd_enter disk_reader entry_D3 =
     Some (Inr (), disk_reader\<lparr>current_entries := [entry_up]\<rparr>)"
  using disk_cd_enter(1,2) [of disk_entries] by (simp_all add: disk_reader_same)

lemma disk_cd_loop_D:
  "cd_loop disk_reader [68] False [entry_D2, entry_G, entry_D3, entry_H, entry_C, entry_E]
     = Some (Inr True, disk_reader\<lparr>current_entries := [entry_up]\<rparr>)"
  using disk_tests(1) [unfolded disk_entries_def]
  by (simp add: disk_cd_enter_root disk_cd_enter)

lemma disk_cd_D:
  "cd disk_reader [68]
     = Some (Inr (Some [entry_up]), disk_reader\<lparr>current_entries := [entry_up]\<rparr>)"
  using disk_cd_loop_D by (simp add: cd_def disk_reader_fields disk_entries_def)

lemma deleted_image_raises:
  "py_index deleted_image 0 = Inr 0xE5"
  "read_entry deleted_image 0 = Inl UnicodeDecodeError"
  by (simp_all add: read_entry_def eval_defs deleted_image_def)

lemma deleted_image_listing: "read_directory deleted_image 0 = Inl UnicodeDecodeError"
  by (subst read_directory_unfold) (simp add: deleted_image_raises)

lemma unterminated_fields:
  "read_ushort unterminated_image 14 = Inr 1" "read_ushort unterminated_image 11 = Inr 32"
  "py_index unterminated_image 13 = Inr 1" "read_ushort unterminated_image 22 = Inr 1"
  "py_index unterminated_image 16 = Inr 1" "read_ushort unterminated_image 17 = Inr 2"
  "read_ushort unterminated_image 36 = Inr 65535"
  by (simp_all add: eval_defs unterminated_image_def)

lemma unterminated_first_bytes:
  "py_index unterminated_image 64 = Inr 68" "py_index unterminated_image 96 = Inr 0"
  "py_index unterminated_image 128 = Inr 89" "py_index unterminated_image 160 = Inl IndexError"
  by (simp_all add: eval_defs unterminated_image_def)

lemma unterminated_slots:
  "read_entry unterminated_image 64 = Inr unterminated_entry"
  "read_entry unterminated_image 128 = Inr entry_Y"
  by (simp_all add: read_entry_def eval_defs unterminated_image_def unterminated_entry_def
      entry_Y_def)

lemma unterminated_root: "read_directory unterminated_image 64 = Inr [unterminated_entry]"
  unfolding read_directory_iff
  by (simp add: all_less_Suc_split unterminated_first_bytes unterminated_slots)

lemma unterminated_end: "read_directory unterminated_image 160 = Inl IndexError"
  by (subst read_directory_unfold) (simp add: unterminated_first_bytes)

lemma unterminated_cluster: "read_directory unterminated_image 128 = Inl IndexError"
  by (subst read_directory_unfold)
     (simp add: unterminated_first_bytes unterminated_slots unterminated_end)

lemma unterminated_init: "fat16_init unterminated_image False = Inr unterminated_reader"
  by (simp add: fat16_init_def read_boot_sector_def unterminated_fields entry_size_def
      unterminated_root unterminated_reader_def)

lemma unterminated_reader_fields:
  "image unterminated_reader = unterminated_image"
  "do_print_on_commands unterminated_reader = False"
  "fat_offset unterminated_reader = 32" "clusters_offset unterminated_reader = 128"
  "cluster_size unterminated_reader = 1" "sector_size unterminated_reader = 32"
  "current_entries unterminated_reader = [unterminated_entry]"
  by (simp_all add: unterminated_reader_def)

lemma unterminated_chain:
  "get_clusters_list unterminated_reader unterminated_entry = Some (Inr [2])"
  by (simp add: get_clusters_list_def check_next_in_fat_def unterminated_reader_fields
      unterminated_fields fat_16_notable_values_def clusters_loop_stop unterminated_entry_def)

lemma unterminated_cd_enter:
  "cd_enter unterminated_reader unterminated_entry =
     Some (Inl IndexError, unterminated_reader\<lparr>current_entries := []\<rparr>)"
  by (simp add: cd_enter_def unterminated_chain cd_set_current_entries_def cluster_start_def
      fat_cluster_read_start_def unterminated_reader_fields unterminated_cluster)

lemma unterminated_cd:
  "cd unterminated_reader [68] =
     Some (Inl IndexError, unterminated_reader\<lparr>current_entries := []\<rparr>)"
proof -
  have "cd_test [68] unterminated_entry"
    by (simp add: cd_test_def unterminated_entry_def)
  then show ?thesis
    by (simp add: cd_def unterminated_reader_fields unterminated_cd_enter)
qed

section \<open>The claims\<close>

text \<open>
  C6, as the code has it: construction from fewer than 24 bytes, the extent of the
  boot-sector fields that \<open>_read_boot_sector\<close> reads, fails, and the exception is the
  \<open>struct.error\<close> of a short 16-bit read. The reader has no \<open>ImageTooSmall\<close>.
\<close>

theorem short_image_struct_error:
  assumes "length file_contents < 24"
  shows "fat16_init file_contents do_print = Inl StructError"
  using assms by (rule fat16_init_short)

theorem short_image_struct_error_witness:
  "fat16_init (take 23 blank_image) False = Inl StructError"
  using short_image_struct_error [of "take 23 blank_image" False]
  by (simp add: blank_image_def)

text \<open>
  C6 as stated fails: an image of 24 bytes, shorter than any boot sector, constructs a
  reader with an empty root listing, and a shorter one raises the same exception as
  every other short read rather than an error of its own.
\<close>

theorem image_too_small_counterexample:
  "length blank_image = 24
   \<and> fat16_init blank_image False =
       Inr \<lparr>do_print_on_commands = False, image = blank_image, volume_id = [],
            reserved_sectors = 0, sector_size = 0, cluster_size = 0, fat_offset = 0,
            fat_size = 0, fat_copies = 0, root_directory_offset = 0,
            root_directory_entries = 0, root_directory_size = 0, clusters_offset = 0,
            current_root = 0, current_entries = []\<rparr>
   \<and> fat16_init (take 10 blank_image) False = Inl StructError
   \<and> read_ushort (take 10 blank_image) 14 = Inl StructError"
  by (simp add: blank_image_init fat16_init_short read_ushort_short)
     (simp add: blank_image_def)

text \<open>
  C7, as the code has it: \<open>_read_directory\<close> returns a list exactly when the slots at
  steps of 32 bytes from the offset start with a non-zero byte and decode, one entry
  each and in order, up to a slot that starts with \<open>0x00\<close>; that slot and what follows
  it are not read. A slot starting with \<open>0xE5\<close> gets no handling of its own: it goes
  through \<open>_read_entry\<close>, so it is an entry of the listing when \<open>_read_entry\<close> returns
  and otherwise its exception ends the whole read. When the byte after \<open>0xE5\<close> is not
  a UTF-8 continuation byte, as in a deleted ASCII name, that exception is
  \<open>UnicodeDecodeError\<close>.
\<close>

theorem read_directory_slots:
  "(read_directory img off = Inr entries \<longleftrightarrow>
      py_index img (off + 32 * int (length entries)) = Inr 0
      \<and> (\<forall>i < length entries.
           (\<exists>b. py_index img (off + 32 * int i) = Inr b \<and> b \<noteq> 0)
           \<and> read_entry img (off + 32 * int i) = Inr (entries ! i)))
   \<and> (py_index img off = Inr 0xE5 \<longrightarrow>
        read_directory img off =
          (case read_entry img off of
             Inl e \<Rightarrow> Inl e
           | Inr entry \<Rightarrow>
               (case read_directory img (off + 32) of
                  Inl e \<Rightarrow> Inl e
                | Inr es \<Rightarrow> Inr (entry # es))))
   \<and> (py_index img off = Inr 0xE5 \<and> py_slice img off (off + 8) = 0xE5 # b1 # rest
        \<and> \<not> is_cont (unat b1) \<longrightarrow>
        read_entry img off = Inl UnicodeDecodeError
        \<and> read_directory img off = Inl UnicodeDecodeError)"
proof (intro conjI)
  show "read_directory img off = Inr entries \<longleftrightarrow>
      py_index img (off + 32 * int (length entries)) = Inr 0
      \<and> (\<forall>i < length entries.
           (\<exists>b. py_index img (off + 32 * int i) = Inr b \<and> b \<noteq> 0)
           \<and> read_entry img (off + 32 * int i) = Inr (entries ! i))"
    by (rule read_directory_iff)
next
  show "py_index img off = Inr 0xE5 \<longrightarrow>
        read_directory img off =
          (case read_entry img off of
             Inl e \<Rightarrow> Inl e
           | Inr entry \<Rightarrow>
               (case read_directory img (off + 32) of
                  Inl e \<Rightarrow> Inl e
                | Inr es \<Rightarrow> Inr (entry # es)))"
  proof
    assume "py_index img off = Inr 0xE5"
    then show "read_directory img off =
          (case read_entry img off of
             Inl e \<Rightarrow> Inl e
           | Inr entry \<Rightarrow>
               (case read_directory img (off + 32) of
                  Inl e \<Rightarrow> Inl e
                | Inr es \<Rightarrow> Inr (entry # es)))"
      by (subst read_directory_unfold) simp
  qed
next
  show "py_index img off = Inr 0xE5 \<and> py_slice img off (off + 8) = 0xE5 # b1 # rest
        \<and> \<not> is_cont (unat b1) \<longrightarrow>
        read_entry img off = Inl UnicodeDecodeError
        \<and> read_directory img off = Inl UnicodeDecodeError"
  proof
    assume a: "py_index img off = Inr 0xE5 \<and> py_slice img off (off + 8) = 0xE5 # b1 # rest
        \<and> \<not> is_cont (unat b1)"
    then have "utf8_decode (map unat (py_slice img off (off + 8))) = Inl UnicodeDecodeError"
      by (cases rest) (auto simp: is_cont_def)
    then have entry: "read_entry img off = Inl UnicodeDecodeError"
      by (simp add: read_entry_def Let_def decode_def)
    moreover from a entry have "read_directory img off = Inl UnicodeDecodeError"
      by (subst read_directory_unfold) simp
    ultimately show "read_entry img off = Inl UnicodeDecodeError
        \<and> read_directory img off = Inl UnicodeDecodeError" ..
  qed
qed

theorem read_directory_slots_witness:
  "read_directory dir_image 0 = Inr [deleted_entry, plain_entry]
   \<and> py_index dir_image 0 = Inr 0xE5 \<and> py_index dir_image 64 = Inr 0
   \<and> py_index dir_image 96 = Inr 0x43"
  using read_directory_slots [of dir_image 0 "[deleted_entry, plain_entry]"]
  by (simp add: all_less_Suc_split dir_image_first_bytes dir_image_entry_0 dir_image_entry_32)

text \<open>
  C7 as stated fails: the first slot starts with \<open>0xE5\<close> followed by the ASCII letter
  \<open>A\<close>. It is not decoded and included: \<open>_read_entry\<close> raises \<open>UnicodeDecodeError\<close> on
  it, and so does the read of the directory.
\<close>

theorem deleted_entry_counterexample:
  "py_index deleted_image 0 = Inr 0xE5
   \<and> py_index deleted_image 1 = Inr 0x41
   \<and> read_entry deleted_image 0 = Inl UnicodeDecodeError
   \<and> read_directory deleted_image 0 = Inl UnicodeDecodeError"
  by (simp add: deleted_image_raises deleted_image_listing)
     (simp add: py_index_def deleted_image_def)

text \<open>
  C8: the attribute list of a decoded entry is \<open>entry_attributes\<close> of the byte at offset
  11 of its slot and of nothing else, and for every byte it holds, without repetition,
  exactly the names whose bit is set: bit 0 \<open>read_only\<close>, bit 1 \<open>hidden\<close>, bit 2
  \<open>system\<close>, bit 3 \<open>volume_id\<close>, bit 4 \<open>directory\<close>, bit 5 \<open>archive\<close>.
\<close>

theorem attributes_from_byte:
  "(read_entry img off = Inr entry \<longrightarrow>
      (\<exists>b. py_index img (off + 11) = Inr b \<and> attributes entry = entry_attributes b))
   \<and> set (entry_attributes attributes_byte) =
       (if bit attributes_byte 0 then {''read_only''} else {})
       \<union> (if bit attributes_byte 1 then {''hidden''} else {})
       \<union> (if bit attributes_byte 2 then {''system''} else {})
       \<union> (if bit attributes_byte 3 then {''volume_id''} else {})
       \<union> (if bit attributes_byte 4 then {''directory''} else {})
       \<union> (if bit attributes_byte 5 then {''archive''} else {})
   \<and> distinct (entry_attributes attributes_byte)"
proof -
  have "read_entry img off = Inr entry \<longrightarrow>
      (\<exists>b. py_index img (off + 11) = Inr b \<and> attributes entry = entry_attributes b)"
    unfolding read_entry_def Let_def by (auto split: sum.splits)
  then show ?thesis
    using entry_attributes_set [of attributes_byte] entry_attributes_distinct [of attributes_byte]
    by blast
qed

theorem attributes_from_byte_witness:
  "read_entry dir_image 0 = Inr deleted_entry
   \<and> py_index dir_image 11 = Inr 0x21
   \<and> attributes deleted_entry = entry_attributes 0x21
   \<and> set (entry_attributes 0x21) = {''read_only'', ''archive''}"
proof -
  have bits: "bit (0x21 :: byte) 0" "\<not> bit (0x21 :: byte) 1" "\<not> bit (0x21 :: byte) 2"
    "\<not> bit (0x21 :: byte) 3" "\<not> bit (0x21 :: byte) 4" "bit (0x21 :: byte) 5"
    by (simp_all add: bit_simps)
  show ?thesis
    using attributes_from_byte [of dir_image 0 deleted_entry "0x21"] bits
    by (auto simp: dir_image_entry_0 dir_image_first_bytes)
qed

text \<open>
  C1, as the code has it: for a file entry that is the only one of its name in the
  listing and whose chain is one cluster lying within the image, \<open>open_file\<close> returns
  the first \<open>min(filesize, cluster capacity)\<close> bytes from the base of that cluster: the
  whole file when it fits in the cluster, and otherwise the cluster alone, with no
  failure. Nothing is said here about a chain of several clusters.
\<close>

theorem open_file_single_cluster:
  assumes "current_entries r = pre @ entry # post"
    and "\<forall>e \<in> set (pre @ post). filename e \<noteq> name"
    and "filename entry = name"
    and "open_file_test entry"
    and "get_clusters_list r entry = Some (Inr [c])"
    and "0 \<le> min (filesize entry) (cluster_size r * sector_size r)"
    and "0 \<le> cluster_start r c"
    and "cluster_start r c + min (filesize entry) (cluster_size r * sector_size r)
          \<le> int (length (image r))"
  shows "open_file r name =
      Some (Inr (Some \<lparr>file_info.filename = name, extension = extension entry,
                       filesize = filesize entry,
                       bytes = take (nat (min (filesize entry) (cluster_size r * sector_size r)))
                                 (drop (nat (cluster_start r c)) (image r))\<rparr>), r)
    \<and> length (take (nat (min (filesize entry) (cluster_size r * sector_size r)))
                (drop (nat (cluster_start r c)) (image r)))
        = nat (min (filesize entry) (cluster_size r * sector_size r))"
proof -
  let ?n = "min (filesize entry) (cluster_size r * sector_size r)"
  let ?f = "\<lparr>file_info.filename = name, extension = extension entry,
      filesize = filesize entry,
      bytes = take (nat ?n) (drop (nat (cluster_start r c)) (image r))\<rparr>"
  have "py_slice (image r) (cluster_start r c) (cluster_start r c + ?n)
      = take (nat ?n) (drop (nat (cluster_start r c)) (image r))"
    using assms(6-8) by (simp add: py_slice_within)
  then have "compose_file r [c] entry = Inr ?f"
    using assms(3) by (simp add: compose_file_first)
  with assms(2-5)
  have "open_file_loop r name False None (pre @ entry # post) = Some (Inr (True, Some ?f))"
    by (intro open_file_loop_unique) auto
  then have "open_file r name = Some (Inr (Some ?f), r)"
    using assms(1) by (simp add: open_file_def)
  moreover have "length (take (nat ?n) (drop (nat (cluster_start r c)) (image r))) = nat ?n"
    using assms(6-8) by simp
  ultimately show ?thesis by simp
qed

theorem open_file_single_cluster_witness:
  "open_file disk_reader [72] =
     Some (Inr (Some \<lparr>file_info.filename = [72], extension = [], filesize = 5,
                      bytes = [104, 101, 108, 108, 111]\<rparr>), disk_reader)"
  using open_file_single_cluster
    [of disk_reader "[entry_D2, entry_G, entry_D3]" entry_H "[entry_C, entry_E]" "[72]" 5]
    disk_tests(4,7)
  by (simp add: disk_reader_fields disk_entries_def disk_chains disk_cluster_starts
      disk_length disk_cluster_5 disk_entry_fields)

text \<open>
  C1 as stated fails: \<open>G\<close> declares 40 bytes and its chain is the single cluster 5 of 32
  bytes, too short for it; \<open>open_file\<close> returns those 32 bytes and raises nothing.
\<close>

theorem truncated_file_counterexample:
  "fat16_init disk False = Inr disk_reader
   \<and> get_clusters_list disk_reader entry_G = Some (Inr [5])
   \<and> filesize entry_G = 40
   \<and> open_file disk_reader [71] =
       Some (Inr (Some \<lparr>file_info.filename = [71], extension = [], filesize = 40,
                        bytes = [104, 101, 108, 108, 111, 1, 2, 3, 4, 5, 6, 7, 8, 9, 10,
                                 11, 12, 13, 14, 15, 16, 17, 18, 19, 20, 21, 22, 23, 24,
                                 25, 26, 27]\<rparr>), disk_reader)"
proof -
  have "compose_file disk_reader [5] entry_G =
      Inr \<lparr>file_info.filename = [71], extension = [], filesize = 40,
           bytes = [104, 101, 108, 108, 111, 1, 2, 3, 4, 5, 6, 7, 8, 9, 10,
                    11, 12, 13, 14, 15, 16, 17, 18, 19, 20, 21, 22, 23, 24,
                    25, 26, 27]\<rparr>"
    by (simp add: compose_file_first disk_cluster_starts disk_reader_fields disk_cluster_5
        disk_entry_fields)
  then have "open_file_loop disk_reader [71] False None
      ([entry_D2] @ entry_G # [entry_D3, entry_H, entry_C, entry_E])
      = Some (Inr (True, Some \<lparr>file_info.filename = [71], extension = [], filesize = 40,
           bytes = [104, 101, 108, 108, 111, 1, 2, 3, 4, 5, 6, 7, 8, 9, 10,
                    11, 12, 13, 14, 15, 16, 17, 18, 19, 20, 21, 22, 23, 24,
                    25, 26, 27]\<rparr>))"
    using disk_tests(3,7)
    by (intro open_file_loop_unique) (simp_all add: disk_entries_def disk_chains)
  then show ?thesis
    by (simp add: open_file_def disk_reader_fields disk_entries_def disk_init disk_chains
        disk_entry_fields)
qed

text \<open>
  C2, at the failing input: the FAT entry of cluster 7 holds \<open>0xFFF9\<close>, an end-of-file
  value inside \<open>0xFFF8\<close>--\<open>0xFFFF\<close>. \<open>_fat_16_notable_values\<close> lists only the two ends of
  that range, so the walk takes \<open>0xFFF9\<close> for the next cluster and reads its FAT entry,
  which lies far outside this image.
\<close>

theorem eof_range_failing_input:
  "fat16_init disk False = Inr disk_reader
   \<and> cluster_number entry_E = 7
   \<and> read_ushort disk (fat_offset disk_reader + 7 * 2) = Inr 0xFFF9
   \<and> check_next_in_fat disk_reader 7 = Inr (True, 0xFFF9)
   \<and> get_clusters_list disk_reader entry_E = Some (Inl StructError)"
  by (simp add: disk_init disk_reader_fields disk_fat_values disk_fat disk_chains
      disk_entry_fields)

text \<open>
  C3, as the code has it: \<open>_get_clusters_list\<close> returns (a list, or the \<open>struct.error\<close> of
  a FAT read outside the image) exactly when the entry's cluster is 0 or the FAT links
  from it reach, after finitely many steps, a notable value or an entry that cannot be
  read. The walk has no bound on its length.
\<close>

theorem chain_walk_returns_iff:
  "(\<exists>res. get_clusters_list r entry = Some res) \<longleftrightarrow>
     cluster_number entry = 0 \<or> chain_ends r (cluster_number entry)"
  by (rule get_clusters_list_returns_iff)

theorem chain_walk_returns_iff_witness:
  "chain_ends disk_reader (cluster_number entry_G)
   \<and> (\<exists>res. get_clusters_list disk_reader entry_G = Some res)"
proof -
  have "chain_ends disk_reader 5"
    using disk_fat(3) by (rule chain_ends.notable)
  then have "chain_ends disk_reader (cluster_number entry_G)"
    by (simp add: disk_entry_fields)
  with chain_walk_returns_iff [of disk_reader entry_G] show ?thesis by simp
qed

text \<open>
  C3 as stated fails: the FAT entry of cluster 6 is 6, and the walk from it never
  returns, neither with a list nor with an error.
\<close>

theorem cyclic_chain_counterexample:
  "fat16_init disk False = Inr disk_reader
   \<and> cluster_number entry_C = 6
   \<and> check_next_in_fat disk_reader 6 = Inr (True, 6)
   \<and> get_clusters_list disk_reader entry_C = None"
proof -
  have "\<not> chain_ends disk_reader (cluster_number entry_C)"
    using disk_no_cycle_end [of 6] by (auto simp: disk_entry_fields)
  then have "\<not> (\<exists>res. get_clusters_list disk_reader entry_C = Some res)"
    by (simp add: get_clusters_list_returns_iff disk_entry_fields)
  then have "get_clusters_list disk_reader entry_C = None"
    by (cases "get_clusters_list disk_reader entry_C") auto
  then show ?thesis
    by (simp add: disk_init disk_fat disk_entry_fields)
qed

text \<open>
  C4: for an entry whose start cluster is 0, \<open>_get_clusters_list\<close> returns the empty list
  without a FAT read, the body of \<open>cd\<close> for it is a read of the directory at the root
  offset (its entries become the current ones, or its exception is raised), and a
  \<open>cd\<close> that returns after such an entry was its last match leaves the root listing as
  the current entries.
\<close>

theorem cd_start_cluster_zero:
  assumes "cluster_number entry = 0"
  shows "get_clusters_list r entry = Some (Inr [])
    \<and> cd_enter r entry =
        Some (case read_directory (image r) (root_directory_offset r) of
                Inl e \<Rightarrow> (Inl e, r)
              | Inr entries \<Rightarrow> (Inr (), r\<lparr>current_entries := entries\<rparr>))
    \<and> (filter (cd_test name) (current_entries r) \<noteq> []
         \<and> last (filter (cd_test name) (current_entries r)) = entry
         \<and> cd r name = Some (Inr res, r')
        \<longrightarrow> read_directory (image r) (root_directory_offset r) = Inr (current_entries r')
            \<and> res = Some (current_entries r')
            \<and> r' = r\<lparr>current_entries := current_entries r'\<rparr>)"
proof -
  have chain: "get_clusters_list r entry = Some (Inr [])"
    using assms by (simp add: get_clusters_list_def)
  have enter: "cd_enter r entry =
        Some (case read_directory (image r) (root_directory_offset r) of
                Inl e \<Rightarrow> (Inl e, r)
              | Inr entries \<Rightarrow> (Inr (), r\<lparr>current_entries := entries\<rparr>))"
    by (simp add: cd_enter_def chain split: sum.splits)
  have "read_directory (image r) (root_directory_offset r) = Inr (current_entries r')
      \<and> res = Some (current_entries r') \<and> r' = r\<lparr>current_entries := current_entries r'\<rparr>"
    if matches: "filter (cd_test name) (current_entries r) \<noteq> []"
      and last: "last (filter (cd_test name) (current_entries r)) = entry"
      and cd: "cd r name = Some (Inr res, r')"
  proof -
    from cd_result [OF cd] obtain f
      where loop: "cd_loop r name False (current_entries r) = Some (Inr f, r')"
        and res: "res = (if f then Some (current_entries r') else None)" by blast
    from matches have "\<exists>e \<in> set (current_entries r). cd_test name e"
      by (simp add: filter_empty_conv)
    with cd_loop_found [OF loop] res have res': "res = Some (current_entries r')" by simp
    from cd_loop_last [OF loop matches] last have "cd_enter r entry = Some (Inr (), r')"
      by simp
    with enter have "read_directory (image r) (root_directory_offset r) = Inr (current_entries r')
        \<and> r' = r\<lparr>current_entries := current_entries r'\<rparr>"
      by (cases "read_directory (image r) (root_directory_offset r)") auto
    with res' show ?thesis by simp
  qed
  with chain enter show ?thesis by blast
qed

theorem cd_start_cluster_zero_witness:
  "cluster_number entry_up = 0
   \<and> get_clusters_list (disk_reader\<lparr>current_entries := [entry_up]\<rparr>) entry_up = Some (Inr [])
   \<and> cd_enter (disk_reader\<lparr>current_entries := [entry_up]\<rparr>) entry_up
       = Some (Inr (), disk_reader)
   \<and> cd (disk_reader\<lparr>current_entries := [entry_up]\<rparr>) [46, 46]
       = Some (Inr (Some disk_entries), disk_reader)
   \<and> read_directory disk (root_directory_offset disk_reader) = Inr disk_entries"
proof -
  have zero: "cluster_number entry_up = 0"
    by (simp add: disk_entry_fields)
  from cd_start_cluster_zero [OF zero, of "disk_reader\<lparr>current_entries := [entry_up]\<rparr>"]
  have "get_clusters_list (disk_reader\<lparr>current_entries := [entry_up]\<rparr>) entry_up
      = Some (Inr [])"
    and "cd_enter (disk_reader\<lparr>current_entries := [entry_up]\<rparr>) entry_up
      = Some (Inr (), disk_reader)"
    by (simp_all add: disk_reader_fields disk_root_listing disk_reader_same)
  then show ?thesis
    using disk_tests(8)
    by (simp add: zero cd_def disk_reader_fields disk_root_listing)
qed

text \<open>
  C5, at the failing input: the root listing has entries named \<open>D\<close>, all of them
  directories without \<open>archive\<close> or \<open>read_only\<close>. \<open>open_file\<close> sets \<open>found\<close> for them,
  never binds \<open>file\<close>, and \<open>return file\<close> raises \<open>UnboundLocalError\<close>; a name that no
  entry has does raise \<open>NotAFileException\<close>.
\<close>

theorem open_file_directory_name_failing_input:
  "fat16_init disk False = Inr disk_reader
   \<and> open_file disk_reader [68] = Some (Inl UnboundLocalError, disk_reader)
   \<and> open_file disk_reader [] = Some (Inl NotAFileException, disk_reader)"
  using disk_tests(2,5,7)
  by (simp add: disk_init open_file_def disk_reader_fields disk_entries_def)

text \<open>
  C9, as the code has it: \<open>ls\<close> returns the current entries and the reader as it was;
  \<open>open_file\<close>, whatever it returns or raises, leaves the reader as it was; so does a
  \<open>cd\<close> that raises \<open>NotADirectoryException\<close>. Any \<open>cd\<close>, returning or raising, leaves
  every field but \<open>current_entries\<close> as it was and changes the reader only if some entry
  passed its test; when it returns a listing, that listing is the new
  \<open>current_entries\<close>.
\<close>

theorem commands_frame:
  "ls r = (current_entries r, r)
   \<and> (open_file r name = Some (file_out, r1) \<longrightarrow> r1 = r)
   \<and> (cd r name = Some (Inl NotADirectoryException, r2) \<longrightarrow> r2 = r)
   \<and> (cd r name = Some (out, r3) \<longrightarrow>
        (\<exists>es. r3 = r\<lparr>current_entries := es\<rparr>)
        \<and> (r3 \<noteq> r \<longrightarrow> (\<exists>e \<in> set (current_entries r). cd_test name e)))
   \<and> (cd r name = Some (Inr (Some listing), r4) \<longrightarrow> current_entries r4 = listing)"
proof -
  have "r3 \<noteq> r \<longrightarrow> (\<exists>e \<in> set (current_entries r). cd_test name e)"
    if "cd r name = Some (out, r3)"
  proof (rule ccontr)
    assume "\<not> (r3 \<noteq> r \<longrightarrow> (\<exists>e \<in> set (current_entries r). cd_test name e))"
    then have "r3 \<noteq> r" and "\<forall>e \<in> set (current_entries r). \<not> cd_test name e" by auto
    with cd_no_match [of r name] that show False by simp
  qed
  moreover have "current_entries r4 = listing" if "cd r name = Some (Inr (Some listing), r4)"
    using cd_result [OF that] by (auto split: if_splits)
  ultimately show ?thesis
    using open_file_frame [of r name file_out r1] cd_not_a_directory [of r name r2]
      cd_frame [of r name out r3]
    by (simp add: ls_def)
qed

theorem commands_frame_witness:
  "ls disk_reader = (disk_entries, disk_reader)
   \<and> open_file disk_reader [] = Some (Inl NotAFileException, disk_reader)
   \<and> cd disk_reader [] = Some (Inl NotADirectoryException, disk_reader)
   \<and> cd disk_reader [68] = Some (Inr (Some [entry_up]), disk_reader\<lparr>current_entries := [entry_up]\<rparr>)
   \<and> disk_reader\<lparr>current_entries := [entry_up]\<rparr> \<noteq> disk_reader"
proof -
  note cd_D = disk_cd_D
  have differ: "disk_reader\<lparr>current_entries := [entry_up]\<rparr> \<noteq> disk_reader"
  proof
    assume "disk_reader\<lparr>current_entries := [entry_up]\<rparr> = disk_reader"
    then have "current_entries (disk_reader\<lparr>current_entries := [entry_up]\<rparr>)
        = current_entries disk_reader" by simp
    then show False by (simp add: disk_reader_fields disk_entries_def)
  qed
  have none: "\<forall>e \<in> set (current_entries disk_reader). \<not> cd_test [] e"
    using disk_tests(6) by (simp add: disk_reader_fields disk_entries_def)
  from commands_frame [of disk_reader "[]" "Inl NotAFileException" disk_reader disk_reader]
  have "ls disk_reader = (disk_entries, disk_reader)"
    by (simp add: disk_reader_fields)
  moreover have "open_file disk_reader [] = Some (Inl NotAFileException, disk_reader)"
    using disk_tests(5) by (simp add: open_file_def disk_reader_fields disk_entries_def)
  moreover have "cd disk_reader [] = Some (Inl NotADirectoryException, disk_reader)"
    using cd_no_match [OF none] by (simp add: disk_reader_fields)
  ultimately show ?thesis using cd_D differ by simp
qed

text \<open>
  C9 as stated fails: \<open>cd\<close> into \<open>D\<close> empties \<open>current_entries\<close> in
  \<open>_cd_set_current_entries\<close> and then raises \<open>IndexError\<close>, because the directory in
  cluster 2 runs to the end of the image. The call did not succeed and the listing is
  replaced.
\<close>

theorem failed_cd_counterexample:
  "fat16_init unterminated_image False = Inr unterminated_reader
   \<and> current_entries unterminated_reader = [unterminated_entry]
   \<and> cd unterminated_reader [68] =
       Some (Inl IndexError, unterminated_reader\<lparr>current_entries := []\<rparr>)
   \<and> current_entries (unterminated_reader\<lparr>current_entries := []\<rparr>) = []"
  by (simp add: unterminated_init unterminated_reader_fields unterminated_cd)



end
